theory Spec2Isabelle
  imports Complex_Main "HOL-Library.Multiset"
begin

section \<open>Service names (notebook cells "Select the services names" and "Resource group and workspace")\<close>

text \<open>
  Python strings are modelled as \<open>string\<close>. Every string that these cells build is ASCII
  (the letters of the literals, hexadecimal digits and hyphens of a UUID), so one
  \<open>char\<close> is one Python character and \<open>length\<close> is Python's \<open>len\<close>.
\<close>

text \<open>\<^verbatim>\<open>s.replace(old, new)\<close> where \<open>old\<close> and \<open>new\<close> are one character each.\<close>

definition str_replace1 :: "char \<Rightarrow> char \<Rightarrow> string \<Rightarrow> string" where
  "str_replace1 old new s = map (\<lambda>c. if c = old then new else c) s"

text \<open>\<^verbatim>\<open>s[0:n]\<close> for \<open>n \<ge> 0\<close>: the slice is clipped to the string, it never raises.\<close>

definition slice0 :: "nat \<Rightarrow> string \<Rightarrow> string" where
  "slice0 n s = take n s"

text \<open>
  \<^verbatim>\<open>str(uuid.uuid4())\<close> is 36 characters: groups of 8, 4, 4, 4 and 12 lower-case
  hexadecimal digits, separated by hyphens. The value is random, so it is the argument
  \<open>u\<close> of everything computed from it.
\<close>

definition hexdigits :: string where
  "hexdigits = ''0123456789abcdef''"

definition uuid_shape :: string where
  "uuid_shape = ''hhhhhhhh-hhhh-hhhh-hhhh-hhhhhhhhhhhh''"

definition is_uuid_str :: "string \<Rightarrow> bool" where
  "is_uuid_str u =
     list_all2 (\<lambda>c p. if p = CHR ''-'' then c = CHR ''-'' else c \<in> set hexdigits) u uuid_shape"

text \<open>\<^verbatim>\<open>short_uuid = str(uuid.uuid4())[:4]\<close>\<close>

definition short_uuid :: "string \<Rightarrow> string" where
  "short_uuid u = slice0 4 u"

text \<open>\<^verbatim>\<open>prefix = "reco" + short_uuid\<close>\<close>

definition prefix :: "string \<Rightarrow> string" where
  "prefix u = ''reco'' @ short_uuid u"

text \<open>\<^verbatim>\<open>data = "mvl"\<close>, \<^verbatim>\<open>algo = "als"\<close>\<close>

definition data :: string where
  "data = ''mvl''"

definition algo :: string where
  "algo = ''als''"

text \<open>\<^verbatim>\<open>resource_group = prefix + "_" + data\<close>\<close>

definition resource_group :: "string \<Rightarrow> string" where
  "resource_group u = prefix u @ ''_'' @ data"

text \<open>
  \<^verbatim>\<open>account_name = resource_group + "-ds-sql"\<close>
  \<^verbatim>\<open>account_name = account_name.replace("_","-")[0:min(31,len(prefix))]\<close>
\<close>

definition account_name :: "string \<Rightarrow> string" where
  "account_name u =
     slice0 (min 31 (length (prefix u)))
       (str_replace1 (CHR ''_'') (CHR ''-'') (resource_group u @ ''-ds-sql''))"

text \<open>\<^verbatim>\<open>DOCUMENTDB_DATABASE = "recommendations"\<close>\<close>

definition DOCUMENTDB_DATABASE :: string where
  "DOCUMENTDB_DATABASE = ''recommendations''"

text \<open>\<^verbatim>\<open>DOCUMENTDB_COLLECTION = "user_recommendations_" + algo\<close>\<close>

definition DOCUMENTDB_COLLECTION :: string where
  "DOCUMENTDB_COLLECTION = ''user_recommendations_'' @ algo"


section \<open>Python values, \<open>str\<close>, \<open>json.dumps\<close> and subscripts\<close>

text \<open>
  The values that \<^verbatim>\<open>json.loads\<close> produces and that the document client returns. A
  \<open>dict\<close> keeps its keys in insertion order, so it is an association list (with distinct
  keys). A float is kept as the text that \<^verbatim>\<open>repr\<close> prints for it: its arithmetic is
  outside this development.
\<close>

datatype pyval =
    PNone
  | PBool bool
  | PInt int
  | PFloat string
  | PStr string
  | PList "pyval list"
  | PDict "(string \<times> pyval) list"

text \<open>
  An instance of a subclass of \<^verbatim>\<open>Exception\<close>: its class name and the text of
  \<^verbatim>\<open>str(e)\<close>. These are the exceptions that \<^verbatim>\<open>except Exception\<close> catches and that
  the calls of the notebook and of the script raise; an interrupt or an exit of the
  interpreter is not one of them. The texts of the interpreter's own errors below are
  those of CPython 3.6; no theorem depends on their wording.
\<close>

datatype exn = Exn (exn_class: string) (exn_str: string)

definition dq :: char where "dq = CHR 0x22"
definition sq :: char where "sq = CHR 0x27"
definition bs :: char where "bs = CHR 0x5C"

fun type_name :: "pyval \<Rightarrow> string" where
  "type_name PNone = ''NoneType''"
| "type_name (PBool _) = ''bool''"
| "type_name (PInt _) = ''int''"
| "type_name (PFloat _) = ''float''"
| "type_name (PStr _) = ''str''"
| "type_name (PList _) = ''list''"
| "type_name (PDict _) = ''dict''"

fun dec_nat :: "nat \<Rightarrow> string" where
  "dec_nat n = (if n < 10 then [''0123456789'' ! n]
                else dec_nat (n div 10) @ [''0123456789'' ! (n mod 10)])"

declare dec_nat.simps [simp del]

definition dec_int :: "int \<Rightarrow> string" where
  "dec_int i = (if i < 0 then CHR ''-'' # dec_nat (nat (- i)) else dec_nat (nat i))"

definition hex2 :: "nat \<Rightarrow> string" where
  "hex2 n = [hexdigits ! (n div 16 mod 16), hexdigits ! (n mod 16)]"

text \<open>
  \<^verbatim>\<open>repr\<close> of a string whose characters are code points below 256: the quote is
  \<open>"\<close> when the string has a \<open>'\<close> and no \<open>"\<close>, and \<open>'\<close> otherwise; the quote and the
  backslash are escaped, and so is every character that is not printable.
\<close>

definition printable :: "char \<Rightarrow> bool" where
  "printable c =
     (let n = (of_char c :: nat) in (32 \<le> n \<and> n < 127) \<or> (161 \<le> n \<and> n \<noteq> 173))"

definition repr_char :: "char \<Rightarrow> char \<Rightarrow> string" where
  "repr_char q c =
     (if c = q \<or> c = bs then [bs, c]
      else if c = CHR 0x09 then [bs, CHR ''t'']
      else if c = CHR 0x0A then [bs, CHR ''n'']
      else if c = CHR 0x0D then [bs, CHR ''r'']
      else if \<not> printable c then [bs, CHR ''x''] @ hex2 (of_char c)
      else [c])"

definition repr_str :: "string \<Rightarrow> string" where
  "repr_str s =
     (let q = (if sq \<in> set s \<and> dq \<notin> set s then dq else sq)
      in q # concat (map (repr_char q) s) @ [q])"

fun join :: "string \<Rightarrow> string list \<Rightarrow> string" where
  "join sep [] = []"
| "join sep [x] = x"
| "join sep (x # y # ys) = x @ sep @ join sep (y # ys)"

fun py_repr :: "pyval \<Rightarrow> string" where
  "py_repr PNone = ''None''"
| "py_repr (PBool b) = (if b then ''True'' else ''False'')"
| "py_repr (PInt i) = dec_int i"
| "py_repr (PFloat r) = r"
| "py_repr (PStr s) = repr_str s"
| "py_repr (PList xs) = ''['' @ join '', '' (map py_repr xs) @ '']''"
| "py_repr (PDict kvs) =
     ''{'' @ join '', '' (map (\<lambda>kv. repr_str (fst kv) @ '': '' @ py_repr (snd kv)) kvs) @ ''}''"

text \<open>\<^verbatim>\<open>str(v)\<close>: a string is itself, every other value is its \<^verbatim>\<open>repr\<close>.\<close>

definition py_str :: "pyval \<Rightarrow> string" where
  "py_str v = (case v of PStr s \<Rightarrow> s | _ \<Rightarrow> py_repr v)"

text \<open>
  \<^verbatim>\<open>'{0}'.format(v)\<close>: with an empty format specification every one of these values
  formats as \<^verbatim>\<open>str(v)\<close>.
\<close>

definition py_format :: "pyval \<Rightarrow> string" where
  "py_format v = py_str v"

text \<open>
  \<^verbatim>\<open>json.dumps(s)\<close> of a string (\<^verbatim>\<open>ensure_ascii\<close> is on by default): the string
  in double quotes, with \<open>"\<close>, the backslash and everything outside the range from the
  space to \<open>~\<close> escaped.
\<close>

definition json_escape_char :: "char \<Rightarrow> string" where
  "json_escape_char c =
     (if c = dq then [bs, dq]
      else if c = bs then [bs, bs]
      else if c = CHR 0x0A then [bs, CHR ''n'']
      else if c = CHR 0x0D then [bs, CHR ''r'']
      else if c = CHR 0x09 then [bs, CHR ''t'']
      else if c = CHR 0x08 then [bs, CHR ''b'']
      else if c = CHR 0x0C then [bs, CHR ''f'']
      else if (of_char c :: nat) < 32 \<or> 126 < (of_char c :: nat)
        then [bs, CHR ''u'', CHR ''0'', CHR ''0''] @ hex2 (of_char c)
      else [c])"

definition json_dumps :: "string \<Rightarrow> string" where
  "json_dumps s = dq # concat (map json_escape_char s) @ [dq]"

text \<open>\<^verbatim>\<open>v[i]\<close> for an index \<open>i \<ge> 0\<close>. The keys of a decoded JSON object are strings, so an
  integer is never one of them.\<close>

definition getitem_index :: "pyval \<Rightarrow> nat \<Rightarrow> exn + pyval" where
  "getitem_index v i =
     (case v of
        PList xs \<Rightarrow> if i < length xs then Inr (xs ! i)
                    else Inl (Exn ''IndexError'' ''list index out of range'')
      | PStr s \<Rightarrow> if i < length s then Inr (PStr [s ! i])
                  else Inl (Exn ''IndexError'' ''string index out of range'')
      | PDict kvs \<Rightarrow> Inl (Exn ''KeyError'' (dec_nat i))
      | _ \<Rightarrow> Inl (Exn ''TypeError''
                 ([sq] @ type_name v @ [sq] @ '' object is not subscriptable'')))"

text \<open>\<^verbatim>\<open>v[k]\<close> for a string \<open>k\<close>.\<close>

definition getitem_key :: "pyval \<Rightarrow> string \<Rightarrow> exn + pyval" where
  "getitem_key v k =
     (case v of
        PDict kvs \<Rightarrow> (case map_of kvs k of
                        Some x \<Rightarrow> Inr x
                      | None \<Rightarrow> Inl (Exn ''KeyError'' (repr_str k)))
      | PList xs \<Rightarrow> Inl (Exn ''TypeError'' ''list indices must be integers or slices, not str'')
      | PStr s \<Rightarrow> Inl (Exn ''TypeError'' ''string indices must be integers'')
      | _ \<Rightarrow> Inl (Exn ''TypeError''
                 ([sq] @ type_name v @ [sq] @ '' object is not subscriptable'')))"

section \<open>The generated scoring script (\<^verbatim>\<open>score_sparkml\<close>)\<close>

text \<open>
  The secrets file of the notebook:
  \<^verbatim>\<open>secrets = {"Endpoint": endpoint, "Masterkey": master_key,
             "Database": DOCUMENTDB_DATABASE, "Collection": DOCUMENTDB_COLLECTION,
             "Upsert": "true"}\<close>
\<close>

record secrets =
  Endpoint :: string
  Masterkey :: string
  Database :: string
  Collection :: string
  Upsert :: string

text \<open>\<^verbatim>\<open>endpoint = "https://" + account_name + ".documents.azure.com:443/"\<close>\<close>

definition endpoint :: "string \<Rightarrow> string" where
  "endpoint u = ''https://'' @ account_name u @ ''.documents.azure.com:443/''"

definition secrets_file :: "string \<Rightarrow> string \<Rightarrow> secrets" where
  "secrets_file u master_key =
     \<lparr>Endpoint = endpoint u, Masterkey = master_key, Database = DOCUMENTDB_DATABASE,
      Collection = DOCUMENTDB_COLLECTION, Upsert = ''true''\<rparr>"

text \<open>
  The script has two module globals, \<^verbatim>\<open>client\<close> and \<^verbatim>\<open>collection\<close>; a name that
  has not been assigned is \<open>None\<close> here. \<open>calls\<close> records the calls that the module has made
  to the document client, in order.
\<close>

datatype document_client = DocumentClient_obj (client_host: string) (client_key: string)

datatype store_call =
    Call_DocumentClient string string
  | Call_ReadCollection string
  | Call_ReadDocument string pyval

datatype collection_val = CollectionResource pyval | CaughtException exn

record module_state =
  client :: "document_client option"
  collection :: "collection_val option"
  calls :: "store_call list"

definition unloaded :: module_state where
  "unloaded = \<lparr>client = None, collection = None, calls = []\<rparr>"

text \<open>
  What the script calls and does not define: the import of the client library, the
  constructor and the two reads of \<^verbatim>\<open>pydocumentdb\<close>, and \<^verbatim>\<open>json.loads\<close>. Each may
  raise; they are the parameters of the model. \<open>DocumentClient w host key = Some e\<close> says
  that the constructor raises \<open>e\<close>.
\<close>

record world =
  import_document_client :: "exn option"
  DocumentClient :: "string \<Rightarrow> string \<Rightarrow> exn option"
  ReadCollection :: "document_client \<Rightarrow> string \<Rightarrow> exn + pyval"
  ReadDocument :: "document_client \<Rightarrow> string \<Rightarrow> pyval \<Rightarrow> exn + pyval"
  json_loads :: "string \<Rightarrow> exn + pyval"

text \<open>
  The body of the \<^verbatim>\<open>try\<close> of \<^verbatim>\<open>init\<close>, with the placeholders \<^verbatim>\<open>{key}\<close>,
  \<^verbatim>\<open>{endpoint}\<close>, \<^verbatim>\<open>{database}\<close> and \<^verbatim>\<open>{collection}\<close> replaced by the secrets:
  \<^verbatim>\<open>
      import pydocumentdb.document_client as document_client
      MASTER_KEY = '{key}'
      HOST = '{endpoint}'
      DATABASE_ID = "{database}"
      COLLECTION_ID = "{collection}"
      database_link = 'dbs/' + DATABASE_ID
      collection_link = database_link + '/colls/' + COLLECTION_ID
      client = document_client.DocumentClient(HOST, {'masterKey': MASTER_KEY})
      collection = client.ReadCollection(collection_link=collection_link)
  \<close>
  The state it returns holds the assignments made before an exception.
\<close>

definition init_try :: "world \<Rightarrow> secrets \<Rightarrow> module_state \<Rightarrow> module_state \<times> (exn + unit)" where
  "init_try w sec s =
     (case import_document_client w of
        Some e \<Rightarrow> (s, Inl e)
      | None \<Rightarrow>
          let MASTER_KEY = Masterkey sec;
              HOST = Endpoint sec;
              DATABASE_ID = Database sec;
              COLLECTION_ID = Collection sec;
              database_link = ''dbs/'' @ DATABASE_ID;
              collection_link = database_link @ ''/colls/'' @ COLLECTION_ID;
              s1 = s\<lparr>calls := calls s @ [Call_DocumentClient HOST MASTER_KEY]\<rparr>
          in (case DocumentClient w HOST MASTER_KEY of
                Some e \<Rightarrow> (s1, Inl e)
              | None \<Rightarrow>
                  let c = DocumentClient_obj HOST MASTER_KEY;
                      s2 = s1\<lparr>client := Some c,
                              calls := calls s1 @ [Call_ReadCollection collection_link]\<rparr>
                  in (case ReadCollection w c collection_link of
                        Inl e \<Rightarrow> (s2, Inl e)
                      | Inr r \<Rightarrow> (s2\<lparr>collection := Some (CollectionResource r)\<rparr>, Inr ()))))"

text \<open>
  \<^verbatim>\<open>
  def init(local=False):
      global client, collection
      try:
        ...
      except Exception as e:
        collection = e
  \<close>
\<close>

definition init :: "world \<Rightarrow> secrets \<Rightarrow> module_state \<Rightarrow> module_state \<times> (exn + unit)" where
  "init w sec s =
     (case init_try w sec s of
        (s', Inl e) \<Rightarrow> (s'\<lparr>collection := Some (CaughtException e)\<rparr>, Inr ())
      | (s', Inr u) \<Rightarrow> (s', Inr u))"

text \<open>\<^verbatim>\<open>json.loads(v)\<close> of a decoded value: only a string can be decoded.\<close>

definition py_json_loads :: "world \<Rightarrow> pyval \<Rightarrow> exn + pyval" where
  "py_json_loads w v =
     (case v of
        PStr s \<Rightarrow> json_loads w s
      | _ \<Rightarrow> Inl (Exn ''TypeError''
                 (''the JSON object must be str, bytes or bytearray, not '' @ repr_str (type_name v))))"

text \<open>\<^verbatim>\<open>id = json.loads(json.loads(input_json)[0])['id']\<close>\<close>

definition extract_id :: "world \<Rightarrow> string \<Rightarrow> exn + pyval" where
  "extract_id w input_json =
     (case json_loads w input_json of
        Inl e \<Rightarrow> Inl e
      | Inr a \<Rightarrow>
          (case getitem_index a 0 of
             Inl e \<Rightarrow> Inl e
           | Inr b \<Rightarrow>
               (case py_json_loads w b of
                  Inl e \<Rightarrow> Inl e
                | Inr c \<Rightarrow> getitem_key c ''id'')))"

text \<open>
  The literal \<^verbatim>\<open>'dbs/{DOCUMENTDB_DATABASE}/colls/{DOCUMENTDB_COLLECTION}/docs/{0}'\<close> of
  the template, after the notebook has replaced the two names.
\<close>

definition docs_link :: string where
  "docs_link = ''dbs/'' @ DOCUMENTDB_DATABASE @ ''/colls/'' @ DOCUMENTDB_COLLECTION @ ''/docs/''"

text \<open>
  The body of the \<^verbatim>\<open>try\<close> of \<^verbatim>\<open>run\<close>:
  \<^verbatim>\<open>
      id = json.loads(json.loads(input_json)[0])['id']
      query = {'query': 'SELECT * FROM c WHERE c.id = "' + str(id) +'"' }
      options = {'partitionKey':str(id)}
      document_link = 'dbs/.../colls/.../docs/{0}'.format(id)
      result = client.ReadDocument(document_link, options);
  \<close>
  Reading the global \<^verbatim>\<open>client\<close> raises \<^verbatim>\<open>NameError\<close> when \<^verbatim>\<open>init\<close> has not
  assigned it.
\<close>

definition run_try :: "world \<Rightarrow> module_state \<Rightarrow> string \<Rightarrow> module_state \<times> (exn + pyval)" where
  "run_try w s input_json =
     (case extract_id w input_json of
        Inl e \<Rightarrow> (s, Inl e)
      | Inr id' \<Rightarrow>
          let query = PDict [(''query'',
                PStr (''SELECT * FROM c WHERE c.id = '' @ [dq] @ py_str id' @ [dq]))];
              options = PDict [(''partitionKey'', PStr (py_str id'))];
              document_link = docs_link @ py_format id'
          in (case client s of
                None \<Rightarrow> (s, Inl (Exn ''NameError''
                            (''name '' @ [sq] @ ''client'' @ [sq] @ '' is not defined'')))
              | Some c \<Rightarrow>
                  (s\<lparr>calls := calls s @ [Call_ReadDocument document_link options]\<rparr>,
                   ReadDocument w c document_link options)))"

text \<open>
  \<^verbatim>\<open>
  def run(input_json):
      try:
        ...
      except Exception as e:
          result = str(e)
      return json.dumps(str(result))
  \<close>
  The result is \<open>Inr\<close> of the returned string; \<open>Inl\<close> would be an exception that leaves
  \<^verbatim>\<open>run\<close>.
\<close>

definition run :: "world \<Rightarrow> module_state \<Rightarrow> string \<Rightarrow> module_state \<times> (exn + string)" where
  "run w s input_json =
     (case run_try w s input_json of
        (s', Inl e) \<Rightarrow> (s', Inr (json_dumps (py_str (PStr (exn_str e)))))
      | (s', Inr result) \<Rightarrow> (s', Inr (json_dumps (py_str result))))"

text \<open>The lookups that a list of calls holds.\<close>

fun lookups :: "store_call list \<Rightarrow> (string \<times> pyval) list" where
  "lookups [] = []"
| "lookups (Call_ReadDocument l opts # cs) = (l, opts) # lookups cs"
| "lookups (_ # cs) = lookups cs"

text \<open>
  The request of the demonstration client, as Python reads the literal:
  \<^verbatim>\<open>input_data = '["{\\"id\\":\\"496\\"}"]'.encode()\<close>
\<close>

definition input_data :: string where
  "input_data = ''['' @ [dq] @ ''{'' @ [bs, dq] @ ''id'' @ [bs, dq] @ '':'' @ [bs, dq] @ ''496''
                 @ [bs, dq] @ ''}'' @ [dq] @ '']''"

section \<open>A reference decoder for \<^verbatim>\<open>json.loads\<close>\<close>

text \<open>
  The theorems about the script hold for every decoder (\<open>json_loads\<close> is a field of the
  world). To run the script on a concrete request the world needs one: \<open>json_decode\<close>
  decodes the JSON texts built from objects, arrays, strings of printable ASCII with the
  two-character escapes, integers and the three literals, and returns on them the value
  that \<^verbatim>\<open>json.loads\<close> returns. It returns \<open>None\<close> on every other text: an invalid one,
  and a number with a fraction or an exponent, a four-digit unicode escape or a character
  outside ASCII, which are outside the decoded subset.
\<close>

definition is_ws :: "char \<Rightarrow> bool" where
  "is_ws c = (c = CHR '' '' \<or> c = CHR 0x09 \<or> c = CHR 0x0A \<or> c = CHR 0x0D)"

definition skip_ws :: "string \<Rightarrow> string" where
  "skip_ws cs = dropWhile is_ws cs"

definition is_digit :: "char \<Rightarrow> bool" where
  "is_digit c = (48 \<le> (of_char c :: nat) \<and> (of_char c :: nat) \<le> 57)"

definition nat_of_digits :: "string \<Rightarrow> nat" where
  "nat_of_digits ds = foldl (\<lambda>a c. 10 * a + (of_char c - 48)) 0 ds"

fun strip_prefix :: "string \<Rightarrow> string \<Rightarrow> string option" where
  "strip_prefix [] cs = Some cs"
| "strip_prefix (p # ps) [] = None"
| "strip_prefix (p # ps) (c # cs) = (if p = c then strip_prefix ps cs else None)"

definition unescape :: "char \<Rightarrow> char option" where
  "unescape e =
     (if e = dq then Some dq
      else if e = bs then Some bs
      else if e = CHR ''/'' then Some (CHR ''/'')
      else if e = CHR ''b'' then Some (CHR 0x08)
      else if e = CHR ''f'' then Some (CHR 0x0C)
      else if e = CHR ''n'' then Some (CHR 0x0A)
      else if e = CHR ''r'' then Some (CHR 0x0D)
      else if e = CHR ''t'' then Some (CHR 0x09)
      else None)"

fun parse_string :: "string \<Rightarrow> (string \<times> string) option" where
  "parse_string [] = None"
| "parse_string (c # cs) =
     (if c = dq then Some ([], cs)
      else if c = bs then
        (case cs of
           [] \<Rightarrow> None
         | e # r \<Rightarrow>
             (case unescape e of
                None \<Rightarrow> None
              | Some x \<Rightarrow> map_option (\<lambda>p. (x # fst p, snd p)) (parse_string r)))
      else if (of_char c :: nat) < 32 \<or> 126 < (of_char c :: nat) then None
      else map_option (\<lambda>p. (c # fst p, snd p)) (parse_string cs))"

definition parse_number :: "string \<Rightarrow> (pyval \<times> string) option" where
  "parse_number cs =
     (let neg = (case cs of c # _ \<Rightarrow> c = CHR ''-'' | [] \<Rightarrow> False);
          cs1 = (if neg then tl cs else cs);
          ds = (case cs1 of
                  [] \<Rightarrow> []
                | d # _ \<Rightarrow> if d = CHR ''0'' then [d] else takeWhile is_digit cs1);
          rest = drop (length ds) cs1;
          n = int (nat_of_digits ds)
      in if ds = [] then None
         else (case rest of
                 c # _ \<Rightarrow> if c = CHR ''.'' \<or> c = CHR ''e'' \<or> c = CHR ''E'' then None
                          else Some (PInt (if neg then - n else n), rest)
               | [] \<Rightarrow> Some (PInt (if neg then - n else n), rest)))"

fun dict_set :: "string \<Rightarrow> pyval \<Rightarrow> (string \<times> pyval) list \<Rightarrow> (string \<times> pyval) list" where
  "dict_set k v [] = [(k, v)]"
| "dict_set k v (kv # kvs) = (if fst kv = k then (k, v) # kvs else kv # dict_set k v kvs)"

text \<open>An object that repeats a key keeps the position of the first pair and the value of the
  last one, as a Python \<open>dict\<close> does.\<close>

definition dict_of_pairs :: "(string \<times> pyval) list \<Rightarrow> (string \<times> pyval) list" where
  "dict_of_pairs ps = foldl (\<lambda>d kv. dict_set (fst kv) (snd kv) d) [] ps"

text \<open>The fuel bounds the nesting; \<open>json_decode\<close> gives more of it than a text can use.\<close>

fun parse_value :: "nat \<Rightarrow> string \<Rightarrow> (pyval \<times> string) option"
  and parse_elems :: "nat \<Rightarrow> string \<Rightarrow> (pyval list \<times> string) option"
  and parse_members :: "nat \<Rightarrow> string \<Rightarrow> ((string \<times> pyval) list \<times> string) option" where
  "parse_value 0 cs = None"
| "parse_value (Suc n) cs =
     (case skip_ws cs of
        [] \<Rightarrow> None
      | c # r \<Rightarrow>
          if c = dq then map_option (\<lambda>p. (PStr (fst p), snd p)) (parse_string r)
          else if c = CHR ''['' then
            (case strip_prefix '']'' (skip_ws r) of
               Some r' \<Rightarrow> Some (PList [], r')
             | None \<Rightarrow> map_option (\<lambda>p. (PList (fst p), snd p)) (parse_elems n r))
          else if c = CHR ''{'' then
            (case strip_prefix ''}'' (skip_ws r) of
               Some r' \<Rightarrow> Some (PDict [], r')
             | None \<Rightarrow> map_option (\<lambda>p. (PDict (dict_of_pairs (fst p)), snd p)) (parse_members n r))
          else (case strip_prefix ''null'' (c # r) of
                  Some r' \<Rightarrow> Some (PNone, r')
                | None \<Rightarrow>
          (case strip_prefix ''true'' (c # r) of
                  Some r' \<Rightarrow> Some (PBool True, r')
                | None \<Rightarrow>
          (case strip_prefix ''false'' (c # r) of
                  Some r' \<Rightarrow> Some (PBool False, r')
                | None \<Rightarrow> parse_number (c # r)))))"
| "parse_elems 0 cs = None"
| "parse_elems (Suc n) cs =
     (case parse_value n cs of
        None \<Rightarrow> None
      | Some p \<Rightarrow>
          (case skip_ws (snd p) of
             [] \<Rightarrow> None
           | c # r \<Rightarrow>
               if c = CHR '','' then map_option (\<lambda>q. (fst p # fst q, snd q)) (parse_elems n r)
               else if c = CHR '']'' then Some ([fst p], r)
               else None))"
| "parse_members 0 cs = None"
| "parse_members (Suc n) cs =
     (case skip_ws cs of
        [] \<Rightarrow> None
      | c # r \<Rightarrow>
          if c \<noteq> dq then None
          else
            (case parse_string r of
               None \<Rightarrow> None
             | Some ks \<Rightarrow>
                 (case strip_prefix '':'' (skip_ws (snd ks)) of
                    None \<Rightarrow> None
                  | Some r2 \<Rightarrow>
                      (case parse_value n r2 of
                         None \<Rightarrow> None
                       | Some p \<Rightarrow>
                           (case skip_ws (snd p) of
                              [] \<Rightarrow> None
                            | d # r3 \<Rightarrow>
                                if d = CHR '','' then
                                  map_option (\<lambda>q. ((fst ks, fst p) # fst q, snd q)) (parse_members n r3)
                                else if d = CHR ''}'' then Some ([(fst ks, fst p)], r3)
                                else None)))))"

definition json_decode :: "string \<Rightarrow> pyval option" where
  "json_decode s =
     (case parse_value (2 * length s + 2) s of
        None \<Rightarrow> None
      | Some p \<Rightarrow> if skip_ws (snd p) = [] then Some (fst p) else None)"


section \<open>The document store\<close>

text \<open>
  The account of the document database, for the operations that the notebook and the
  script use: the identifiers of its databases, its collections (database and collection
  identifier, with the resource) and its documents (database, collection and document
  identifier). A read or a write of a document resolves the collection first and fails
  with status 404 when there is none. A stored document is the document that was written;
  the properties that the service adds to it (\<^verbatim>\<open>_rid\<close>, \<^verbatim>\<open>_ts\<close> and the like) are
  left out.
\<close>

record cosmos =
  dbs :: "string list"
  colls :: "((string \<times> string) \<times> pyval) list"
  docs :: "string \<times> string \<times> string \<rightharpoonup> pyval"

definition http_failure :: "nat \<Rightarrow> exn" where
  "http_failure status = Exn ''HTTPFailure'' (''Status code: '' @ dec_nat status)"

definition database_resource :: "string \<Rightarrow> pyval" where
  "database_resource d = PDict [(''id'', PStr d), (''_self'', PStr (''dbs/'' @ d @ ''/''))]"

definition cosmos_CreateDatabase :: "cosmos \<Rightarrow> pyval \<Rightarrow> cosmos \<times> (exn + pyval)" where
  "cosmos_CreateDatabase c body =
     (case getitem_key body ''id'' of
        Inr (PStr d) \<Rightarrow>
          if d \<in> set (dbs c) then (c, Inl (http_failure 409))
          else (c\<lparr>dbs := dbs c @ [d]\<rparr>, Inr (database_resource d))
      | _ \<Rightarrow> (c, Inl (http_failure 400)))"

definition cosmos_ReadDatabase :: "cosmos \<Rightarrow> string \<Rightarrow> exn + pyval" where
  "cosmos_ReadDatabase c database_link =
     (case find (\<lambda>d. ''dbs/'' @ d = database_link) (dbs c) of
        Some d \<Rightarrow> Inr (database_resource d)
      | None \<Rightarrow> Inl (http_failure 404))"

definition collection_resource :: "pyval \<Rightarrow> pyval \<Rightarrow> pyval" where
  "collection_resource definition options =
     PDict [(''definition'', definition), (''options'', options)]"

definition has_collection :: "cosmos \<Rightarrow> string \<Rightarrow> string \<Rightarrow> bool" where
  "has_collection c d k = ((d, k) \<in> set (map fst (colls c)))"

definition cosmos_CreateCollection ::
  "cosmos \<Rightarrow> string \<Rightarrow> pyval \<Rightarrow> pyval \<Rightarrow> cosmos \<times> (exn + pyval)" where
  "cosmos_CreateCollection c database_link definition options =
     (case find (\<lambda>d. ''dbs/'' @ d @ ''/'' = database_link) (dbs c) of
        None \<Rightarrow> (c, Inl (http_failure 404))
      | Some d \<Rightarrow>
          (case getitem_key definition ''id'' of
             Inr (PStr k) \<Rightarrow>
               if has_collection c d k then (c, Inl (http_failure 409))
               else (c\<lparr>colls := colls c @ [((d, k), collection_resource definition options)]\<rparr>,
                     Inr (collection_resource definition options))
           | _ \<Rightarrow> (c, Inl (http_failure 400))))"

definition collection_link_of :: "string \<Rightarrow> string \<Rightarrow> string" where
  "collection_link_of d k = ''dbs/'' @ d @ ''/colls/'' @ k"

definition cosmos_ReadCollection :: "cosmos \<Rightarrow> string \<Rightarrow> exn + pyval" where
  "cosmos_ReadCollection c collection_link =
     (case find (\<lambda>e. collection_link_of (fst (fst e)) (snd (fst e)) = collection_link) (colls c) of
        Some e \<Rightarrow> Inr (snd e)
      | None \<Rightarrow> Inl (http_failure 404))"

definition resolve_document :: "cosmos \<Rightarrow> string \<Rightarrow> (string \<times> string \<times> string) option" where
  "resolve_document c document_link =
     (case find (\<lambda>e. strip_prefix (collection_link_of (fst (fst e)) (snd (fst e)) @ ''/docs/'')
                        document_link \<noteq> None) (colls c) of
        None \<Rightarrow> None
      | Some e \<Rightarrow>
          map_option (\<lambda>k. (fst (fst e), snd (fst e), k))
            (strip_prefix (collection_link_of (fst (fst e)) (snd (fst e)) @ ''/docs/'')
               document_link))"

text \<open>A point read: the document behind the link, when the partition key of the options
  is the document's (the collection is partitioned on \<^verbatim>\<open>/id\<close>).\<close>

definition cosmos_ReadDocument :: "cosmos \<Rightarrow> string \<Rightarrow> pyval \<Rightarrow> exn + pyval" where
  "cosmos_ReadDocument c document_link options =
     (case resolve_document c document_link of
        None \<Rightarrow> Inl (http_failure 404)
      | Some key \<Rightarrow>
          (case docs c key of
             None \<Rightarrow> Inl (http_failure 404)
           | Some d \<Rightarrow>
               if getitem_key options ''partitionKey'' = getitem_key d ''id'' then Inr d
               else Inl (http_failure 404)))"

text \<open>An upsert stores the whole document under its identifier, whatever was there; a
  create fails with status 409 when the identifier is taken.\<close>

definition cosmos_UpsertDocument :: "cosmos \<Rightarrow> string \<Rightarrow> string \<Rightarrow> pyval \<Rightarrow> cosmos \<times> (exn + unit)" where
  "cosmos_UpsertDocument c database coll d =
     (if \<not> has_collection c database coll then (c, Inl (http_failure 404))
      else (case getitem_key d ''id'' of
              Inr (PStr k) \<Rightarrow> (c\<lparr>docs := (docs c)((database, coll, k) \<mapsto> d)\<rparr>, Inr ())
            | _ \<Rightarrow> (c, Inl (http_failure 400))))"

definition cosmos_CreateDocument :: "cosmos \<Rightarrow> string \<Rightarrow> string \<Rightarrow> pyval \<Rightarrow> cosmos \<times> (exn + unit)" where
  "cosmos_CreateDocument c database coll d =
     (if \<not> has_collection c database coll then (c, Inl (http_failure 404))
      else (case getitem_key d ''id'' of
              Inr (PStr k) \<Rightarrow>
                if docs c (database, coll, k) = None
                then (c\<lparr>docs := (docs c)((database, coll, k) \<mapsto> d)\<rparr>, Inr ())
                else (c, Inl (http_failure 409))
            | _ \<Rightarrow> (c, Inl (http_failure 400))))"


section \<open>Persisting the recommendations\<close>

text \<open>
  \<^verbatim>\<open>
  recs = model.recommendForAllUsers(10)
  recs.withColumn("id",recs[userCol].cast("string")).select("id", "recommendations."+ itemCol)
  .write.format("com.microsoft.azure.cosmosdb.spark").mode('overwrite').options(**writeConfig).save()
  \<close>
  The fitted model is external. It is represented by what it ranks: for each user it
  knows, once, every item with its predicted rating, best first.
  \<^verbatim>\<open>recommendForAllUsers(numItems)\<close> keeps the first \<open>numItems\<close> of each ranking.
\<close>

type_synonym 'r als_model = "(int \<times> (int \<times> 'r) list) list"

definition recommendForAllUsers :: "'r als_model \<Rightarrow> nat \<Rightarrow> (int \<times> (int \<times> 'r) list) list" where
  "recommendForAllUsers m numItems = map (\<lambda>ur. (fst ur, take numItems (snd ur))) m"

text \<open>\<^verbatim>\<open>recs[userCol].cast("string")\<close> of an integer column: its decimal text.\<close>

definition cast_string :: "int \<Rightarrow> string" where
  "cast_string i = dec_int i"

text \<open>\<^verbatim>\<open>.withColumn("id", ...).select("id", "recommendations.MovieId")\<close>: the identifier and the
  item identifiers of the recommendations, in their order.\<close>

definition select_id_items :: "(int \<times> (int \<times> 'r) list) list \<Rightarrow> (string \<times> int list) list" where
  "select_id_items recs = map (\<lambda>ur. (cast_string (fst ur), map fst (snd ur))) recs"

text \<open>The document that the connector writes for a row: one field per column.\<close>

definition row_document :: "string \<times> int list \<Rightarrow> pyval" where
  "row_document row = PDict [(''id'', PStr (fst row)), (''MovieId'', PList (map PInt (snd row)))]"

fun write_rows :: "bool \<Rightarrow> string \<Rightarrow> string \<Rightarrow> (string \<times> int list) list \<Rightarrow> cosmos
    \<Rightarrow> cosmos \<times> (exn + unit)" where
  "write_rows upsert database coll [] c = (c, Inr ())"
| "write_rows upsert database coll (row # rows) c =
     (case (if upsert then cosmos_UpsertDocument c database coll (row_document row)
            else cosmos_CreateDocument c database coll (row_document row)) of
        (c', Inl e) \<Rightarrow> (c', Inl e)
      | (c', Inr _) \<Rightarrow> write_rows upsert database coll rows c')"

text \<open>
  The connector \<^verbatim>\<open>com.microsoft.azure.cosmosdb.spark\<close> is external: in mode
  \<^verbatim>\<open>overwrite\<close> it upserts every row, in mode \<^verbatim>\<open>append\<close> the option
  \<^verbatim>\<open>Upsert\<close> decides between upserting and creating; it writes to the database and
  collection that the options name. The notebook sets the mode \<^verbatim>\<open>overwrite\<close> and the
  option \<^verbatim>\<open>Upsert\<close>; the two modes that write to an empty collection only are not
  used and are not told apart from \<^verbatim>\<open>append\<close> here.
\<close>

definition cosmosdb_spark_save ::
  "string \<Rightarrow> secrets \<Rightarrow> (string \<times> int list) list \<Rightarrow> cosmos \<Rightarrow> cosmos \<times> (exn + unit)" where
  "cosmosdb_spark_save mode writeConfig rows c =
     write_rows (mode = ''overwrite'' \<or> Upsert writeConfig = ''true'')
       (Database writeConfig) (Collection writeConfig) rows c"

definition save_recs :: "'r als_model \<Rightarrow> secrets \<Rightarrow> cosmos \<Rightarrow> cosmos \<times> (exn + unit)" where
  "save_recs model writeConfig c =
     (let recs = recommendForAllUsers model 10
      in cosmosdb_spark_save ''overwrite'' writeConfig (select_id_items recs) c)"

text \<open>The documents after the rows have been upserted, one after the other.\<close>

definition written :: "string \<Rightarrow> string \<Rightarrow> (string \<times> int list) list
    \<Rightarrow> (string \<times> string \<times> string \<rightharpoonup> pyval) \<Rightarrow> (string \<times> string \<times> string \<rightharpoonup> pyval)" where
  "written d k rows m = fold (\<lambda>row m. m((d, k, fst row) \<mapsto> row_document row)) rows m"

section \<open>A world backed by the document store\<close>

text \<open>
  The world of the concrete runs below: the client library is there, the client can be
  constructed, the reads go to the account \<open>c\<close>, and \<^verbatim>\<open>json.loads\<close> is the reference
  decoder. Where the decoder returns \<open>None\<close> the world raises a decoding error; its text
  is the one of a failure at the first character, and no theorem evaluates it.
\<close>

definition decode_error :: exn where
  "decode_error = Exn ''JSONDecodeError'' ''Expecting value: line 1 column 1 (char 0)''"

definition store_world :: "cosmos \<Rightarrow> world" where
  "store_world c =
     \<lparr>import_document_client = None,
      DocumentClient = (\<lambda>h k. None),
      ReadCollection = (\<lambda>cl l. cosmos_ReadCollection c l),
      ReadDocument = (\<lambda>cl l opts. cosmos_ReadDocument c l opts),
      json_loads = (\<lambda>s. case json_decode s of Some v \<Rightarrow> Inr v | None \<Rightarrow> Inl decode_error)\<rparr>"

definition empty_account :: cosmos where
  "empty_account = \<lparr>dbs = [], colls = [], docs = Map.empty\<rparr>"

section \<open>Service creation, training and deployment: the notebook as a sequence of calls\<close>

text \<open>
  The notebook imports \<^verbatim>\<open>find_database\<close>, \<^verbatim>\<open>read_database\<close>,
  \<^verbatim>\<open>find_collection\<close> and \<^verbatim>\<open>read_collection\<close> from
  \<^verbatim>\<open>reco_utils.dataset.cosmos_cli\<close> and does not define them. The spec describes the
  step that uses them as creating the database and the collection of a document store;
  the four helpers are taken as their names and their use in the notebook say.
\<close>

text \<open>Modelled from the spec: \<^verbatim>\<open>find_database(client, id)\<close>, missing from the sources,
  tells whether the account has a database with that identifier; it changes nothing.\<close>

definition find_database :: "cosmos \<Rightarrow> string \<Rightarrow> bool" where
  "find_database c d = (d \<in> set (dbs c))"

text \<open>Modelled from the spec: \<^verbatim>\<open>read_database(client, id)\<close>, missing from the sources,
  reads the database with that identifier; it changes nothing.\<close>

definition read_database :: "cosmos \<Rightarrow> string \<Rightarrow> exn + pyval" where
  "read_database c d = cosmos_ReadDatabase c (''dbs/'' @ d)"

text \<open>Modelled from the spec: \<^verbatim>\<open>find_collection(client, dbid, id)\<close>, missing from the
  sources, tells whether that database has a collection with that identifier; it changes
  nothing.\<close>

definition find_collection :: "cosmos \<Rightarrow> string \<Rightarrow> string \<Rightarrow> bool" where
  "find_collection c d k = has_collection c d k"

text \<open>Modelled from the spec: \<^verbatim>\<open>read_collection(client, dbid, id)\<close>, missing from the
  sources, reads that collection; it changes nothing.\<close>

definition read_collection :: "cosmos \<Rightarrow> string \<Rightarrow> string \<Rightarrow> exn + pyval" where
  "read_collection c d k = cosmos_ReadCollection c (collection_link_of d k)"

text \<open>
  Every call that the notebook makes to a service, to the cluster or to the file store, in
  the order of its cells. A call either returns or raises, as the environment \<open>raises\<close>
  says; \<open>existing_services\<close> is what \<^verbatim>\<open>Webservice.list(ws)\<close> returns. The state holds
  the account of the document database, the calls made so far and the deployed service.
  Running the notebook stops at the first exception that no \<^verbatim>\<open>try\<close> catches.
\<close>

datatype api_call =
    Workspace_create | Write_config
  | Get_client_from_cli_profile | Create_or_update | Poller_result | List_keys
  | DocumentClient_new
  | Find_database | CreateDatabase | Read_database
  | Find_collection | CreateCollection | Read_collection
  | Write_secrets
  | Load_spark_df | Data_show
  | Spark_random_split | Train_count | Test_count
  | ALS_fit
  | Transform_user_item | Dfs_pred_show | Top_all_show | Test_show
  | Ranking_evaluation | Transform_test | Rating_evaluation
  | Model_save | Dbutils_fs_cp
  | RecommendForAllUsers | Cosmosdb_save
  | Write_score_script | Write_conda_file
  | Model_register
  | Image_configuration | ContainerImage_create | Wait_for_creation
  | Provisioning_configuration | ComputeTarget_create | Wait_for_completion
  | Deploy_configuration | Deploy_from_image | Wait_for_deployment | Webservice_list
  | Get_keys | Urlopen

record env =
  raises :: "api_call \<Rightarrow> exn option"
  existing_services :: "string list"

record pstate =
  account :: cosmos
  trace :: "api_call list"
  aks_service :: "string option"

type_synonym 'a action = "pstate \<Rightarrow> pstate \<times> (exn + 'a)"

definition api :: "env \<Rightarrow> api_call \<Rightarrow> unit action" where
  "api e c s =
     (s\<lparr>trace := trace s @ [c]\<rparr>, case raises e c of Some x \<Rightarrow> Inl x | None \<Rightarrow> Inr ())"

definition bind :: "'a action \<Rightarrow> ('a \<Rightarrow> 'b action) \<Rightarrow> 'b action" where
  "bind a f s = (case a s of (s', Inl x) \<Rightarrow> (s', Inl x) | (s', Inr v) \<Rightarrow> f v s')"

definition try_except :: "'a action \<Rightarrow> (exn \<Rightarrow> 'a action) \<Rightarrow> 'a action" where
  "try_except a h s = (case a s of (s', Inl x) \<Rightarrow> h x s' | (s', Inr v) \<Rightarrow> (s', Inr v))"

definition return :: "'a \<Rightarrow> 'a action" where
  "return v s = (s, Inr v)"

definition raise :: "exn \<Rightarrow> 'a action" where
  "raise x s = (s, Inl x)"

definition on_account :: "(cosmos \<Rightarrow> cosmos \<times> (exn + 'a)) \<Rightarrow> 'a action" where
  "on_account f s = (case f (account s) of (c', r) \<Rightarrow> (s\<lparr>account := c'\<rparr>, r))"

fun straight :: "env \<Rightarrow> api_call list \<Rightarrow> unit action" where
  "straight e [] = return ()"
| "straight e (c # cs) = bind (api e c) (\<lambda>_. straight e cs)"

text \<open>\<^verbatim>\<open>ws = Workspace.create(..., exist_ok=True)\<close>, \<^verbatim>\<open>ws.write_config(ws_config_path)\<close>\<close>

definition create_workspace :: "env \<Rightarrow> unit action" where
  "create_workspace e = straight e [Workspace_create, Write_config]"

text \<open>
  \<^verbatim>\<open>
  client = get_client_from_cli_profile(azure.mgmt.cosmosdb.CosmosDB, subscription_id=subscription_id)
  async_cosmosdb_create = client.database_accounts.create_or_update(resource_group, account_name, {...})
  account = async_cosmosdb_create.result()
  my_keys = client.database_accounts.list_keys(resource_group, account_name)
  client = document_client.DocumentClient(endpoint, {'masterKey': master_key})
  \<close>
\<close>

definition create_account :: "env \<Rightarrow> unit action" where
  "create_account e =
     straight e [Get_client_from_cli_profile, Create_or_update, Poller_result, List_keys,
                 DocumentClient_new]"

text \<open>
  \<^verbatim>\<open>
  if find_database(client, DOCUMENTDB_DATABASE) == False:
      db = client.CreateDatabase({ 'id': DOCUMENTDB_DATABASE })
  else:
      db = read_database(client, DOCUMENTDB_DATABASE)
  \<close>
\<close>

definition create_database :: "env \<Rightarrow> pyval action" where
  "create_database e =
     bind (api e Find_database) (\<lambda>_ s.
       if find_database (account s) DOCUMENTDB_DATABASE = False
       then bind (api e CreateDatabase) (\<lambda>_.
              on_account (\<lambda>c. cosmos_CreateDatabase c (PDict [(''id'', PStr DOCUMENTDB_DATABASE)]))) s
       else bind (api e Read_database) (\<lambda>_.
              on_account (\<lambda>c. (c, read_database c DOCUMENTDB_DATABASE))) s)"

text \<open>
  \<^verbatim>\<open>
  options = {'offerThroughput': 11000}
  collection_definition = { 'id': DOCUMENTDB_COLLECTION,
                            'partitionKey': {'paths': ['/id'],'kind': 'Hash'} }
  if find_collection(client,DOCUMENTDB_DATABASE,  DOCUMENTDB_COLLECTION) ==False:
      collection = client.CreateCollection(db['_self'], collection_definition, options)
  else:
      collection = read_collection(client, DOCUMENTDB_DATABASE, DOCUMENTDB_COLLECTION)
  \<close>
\<close>

definition collection_options :: pyval where
  "collection_options = PDict [(''offerThroughput'', PInt 11000)]"

definition collection_definition :: pyval where
  "collection_definition =
     PDict [(''id'', PStr DOCUMENTDB_COLLECTION),
            (''partitionKey'', PDict [(''paths'', PList [PStr ''/id'']), (''kind'', PStr ''Hash'')])]"

definition create_collection :: "env \<Rightarrow> pyval \<Rightarrow> pyval action" where
  "create_collection e db =
     bind (api e Find_collection) (\<lambda>_ s.
       if find_collection (account s) DOCUMENTDB_DATABASE DOCUMENTDB_COLLECTION = False
       then (case getitem_key db ''_self'' of
               Inl x \<Rightarrow> raise x s
             | Inr self \<Rightarrow>
                 bind (api e CreateCollection) (\<lambda>_.
                   on_account (\<lambda>c. cosmos_CreateCollection c (py_str self)
                                      collection_definition collection_options)) s)
       else bind (api e Read_collection) (\<lambda>_.
              on_account (\<lambda>c. (c, read_collection c DOCUMENTDB_DATABASE DOCUMENTDB_COLLECTION))) s)"

definition create_cosmosdb :: "env \<Rightarrow> unit action" where
  "create_cosmosdb e =
     bind (create_account e) (\<lambda>_.
     bind (create_database e) (\<lambda>db.
     bind (create_collection e db) (\<lambda>collection. return ())))"

text \<open>The cells of section 2: loading, splitting, fitting, scoring, evaluating and saving
  the model. Each is a job on the cluster or a call to a library.\<close>

definition training :: "env \<Rightarrow> unit action" where
  "training e =
     straight e [Load_spark_df, Data_show, Spark_random_split, Train_count, Test_count, ALS_fit,
                 Transform_user_item, Dfs_pred_show, Top_all_show, Test_show,
                 Ranking_evaluation, Transform_test, Rating_evaluation,
                 Model_save, Dbutils_fs_cp]"

text \<open>Sections 3.1 and 3.2: the recommendations are written to the store, the scoring script
  and the environment file are written, the model is registered.\<close>

definition configure :: "env \<Rightarrow> unit action" where
  "configure e =
     straight e [RecommendForAllUsers, Cosmosdb_save, Write_score_script, Write_conda_file,
                 Model_register]"

text \<open>
  \<^verbatim>\<open>
  myimage_config = ContainerImage.image_configuration(...)
  image = ContainerImage.create(...)
  image.wait_for_creation(show_output = True)
  \<close>
\<close>

definition create_image :: "env \<Rightarrow> unit action" where
  "create_image e = straight e [Image_configuration, ContainerImage_create, Wait_for_creation]"

text \<open>
  \<^verbatim>\<open>
  prov_config = AksCompute.provisioning_configuration()
  aks_target = ComputeTarget.create(workspace = ws, name = aks_name, provisioning_configuration = prov_config)
  aks_target.wait_for_completion(show_output = True)
  \<close>
\<close>

definition create_cluster :: "env \<Rightarrow> unit action" where
  "create_cluster e =
     straight e [Provisioning_configuration, ComputeTarget_create, Wait_for_completion]"

text \<open>
  \<^verbatim>\<open>
  aks_config = AksWebservice.deploy_configuration(enable_app_insights=True)
  try:
      aks_service = Webservice.deploy_from_image(workspace=ws, name=service_name, ...)
      aks_service.wait_for_deployment(show_output=True)
  except Exception:
      aks_service = Webservice.list(ws)[0]
  \<close>
  with \<^verbatim>\<open>service_name = data + "-" + algo\<close>.
\<close>

definition set_service :: "string \<Rightarrow> unit action" where
  "set_service name s = (s\<lparr>aks_service := Some name\<rparr>, Inr ())"

definition deploy :: "env \<Rightarrow> unit action" where
  "deploy e =
     bind (api e Deploy_configuration) (\<lambda>_.
       try_except
         (bind (api e Deploy_from_image) (\<lambda>_.
          bind (set_service (data @ ''-'' @ algo)) (\<lambda>_.
          api e Wait_for_deployment)))
         (\<lambda>x. bind (api e Webservice_list) (\<lambda>_.
                case existing_services e of
                  [] \<Rightarrow> raise (Exn ''IndexError'' ''list index out of range'')
                | name # _ \<Rightarrow> set_service name)))"

text \<open>
  \<^verbatim>\<open>
  service_key = aks_service.get_keys()[0]
  ...
  with urllib.request.urlopen(req) as result:
  \<close>
\<close>

definition call_service :: "env \<Rightarrow> unit action" where
  "call_service e = straight e [Get_keys, Urlopen]"

definition notebook :: "env \<Rightarrow> unit action" where
  "notebook e =
     bind (create_workspace e) (\<lambda>_.
     bind (create_cosmosdb e) (\<lambda>_.
     bind (api e Write_secrets) (\<lambda>_.
     bind (training e) (\<lambda>_.
     bind (configure e) (\<lambda>_.
     bind (create_image e) (\<lambda>_.
     bind (create_cluster e) (\<lambda>_.
     bind (deploy e) (\<lambda>_.
     call_service e))))))))"

section \<open>Reading a trace\<close>

text \<open>
  The calls of a complete run, as a function of what decides the three places where the
  notebook is not straight-line: whether the database exists, whether the collection
  exists, and how the deployment goes.
\<close>

datatype deploy_path = Deployed | Deploy_failed | Wait_failed

definition deploy_path_of :: "env \<Rightarrow> deploy_path" where
  "deploy_path_of e =
     (if raises e Deploy_from_image \<noteq> None then Deploy_failed
      else if raises e Wait_for_deployment \<noteq> None then Wait_failed
      else Deployed)"

definition calls_of :: "bool \<Rightarrow> bool \<Rightarrow> deploy_path \<Rightarrow> api_call list" where
  "calls_of db_exists coll_exists path =
     [Workspace_create, Write_config,
      Get_client_from_cli_profile, Create_or_update, Poller_result, List_keys,
      DocumentClient_new, Find_database]
     @ (if db_exists then [Read_database] else [CreateDatabase])
     @ [Find_collection]
     @ (if coll_exists then [Read_collection] else [CreateCollection])
     @ [Write_secrets,
        Load_spark_df, Data_show, Spark_random_split, Train_count, Test_count, ALS_fit,
        Transform_user_item, Dfs_pred_show, Top_all_show, Test_show,
        Ranking_evaluation, Transform_test, Rating_evaluation, Model_save, Dbutils_fs_cp,
        RecommendForAllUsers, Cosmosdb_save, Write_score_script, Write_conda_file,
        Model_register,
        Image_configuration, ContainerImage_create, Wait_for_creation,
        Provisioning_configuration, ComputeTarget_create, Wait_for_completion,
        Deploy_configuration, Deploy_from_image]
     @ (case path of
          Deployed \<Rightarrow> [Wait_for_deployment]
        | Deploy_failed \<Rightarrow> [Webservice_list]
        | Wait_failed \<Rightarrow> [Wait_for_deployment, Webservice_list])
     @ [Get_keys, Urlopen]"

text \<open>The calls that a run of the whole notebook makes.\<close>

definition calls_made :: "env \<Rightarrow> pstate \<Rightarrow> api_call list" where
  "calls_made e s = trace (fst (notebook e s))"

text \<open>\<open>precedes x y t\<close>: in \<open>t\<close> no \<open>y\<close> comes before the first \<open>x\<close>, so every call \<open>y\<close> is
  made after a call \<open>x\<close>.\<close>

fun precedes :: "api_call \<Rightarrow> api_call \<Rightarrow> api_call list \<Rightarrow> bool" where
  "precedes x y [] = True"
| "precedes x y (c # cs) = (if c = y then False else if c = x then True else precedes x y cs)"

text \<open>A call is caught when it is one of the two calls inside the \<^verbatim>\<open>try\<close> of the
  deployment cell.\<close>

definition caught :: "api_call \<Rightarrow> bool" where
  "caught c = (c = Deploy_from_image \<or> c = Wait_for_deployment)"

text \<open>
  \<open>steps e a s cs\<close>: from \<open>s\<close> the action \<open>a\<close> makes the calls \<open>cs\<close> in order. When it
  returns it has made all of them; when it raises it has made the first \<open>k\<close> of them. Every
  call that is followed by another one has returned or was caught.
\<close>

definition steps :: "env \<Rightarrow> 'a action \<Rightarrow> pstate \<Rightarrow> api_call list \<Rightarrow> bool" where
  "steps e a s cs =
     (\<exists>k \<le> length cs.
        trace (fst (a s)) = trace s @ take k cs
        \<and> (\<forall>c \<in> set (butlast (take k cs)). raises e c = None \<or> caught c)
        \<and> (case snd (a s) of
             Inr v \<Rightarrow> k = length cs \<and> (\<forall>c \<in> set cs. raises e c = None \<or> caught c)
           | Inl x \<Rightarrow> True))"

section \<open>Training data: the split and the candidate recommendations\<close>

text \<open>
  Modelled from the spec: \<^verbatim>\<open>spark_random_split\<close>, which the notebook imports from
  \<^verbatim>\<open>reco_utils.dataset.spark_splitters\<close>, is missing from the sources. The spec calls
  the step "train/test partitioning of rating records" and the notebook calls it a random
  split with a ratio and a seed: every row gets one pseudo-random draw in \<open>[0, 1)\<close>, fixed
  by the seed and the row's position, and goes to the first part when the draw is below the
  ratio and to the second part when it is in \<open>[ratio, 1)\<close>. The generator is the parameter
  \<open>draw\<close>.
\<close>

definition spark_random_split ::
  "(nat \<Rightarrow> nat \<Rightarrow> real) \<Rightarrow> 'a list \<Rightarrow> real \<Rightarrow> nat \<Rightarrow> 'a list \<times> 'a list" where
  "spark_random_split draw rows ratio seed =
     (let numbered = zip [0..<length rows] rows
      in (map snd (filter (\<lambda>ir. 0 \<le> draw seed (fst ir) \<and> draw seed (fst ir) < ratio) numbered),
          map snd (filter (\<lambda>ir. ratio \<le> draw seed (fst ir) \<and> draw seed (fst ir) < 1) numbered)))"

text \<open>\<^verbatim>\<open>train, test = spark_random_split(data, ratio=0.75, seed=42)\<close>\<close>

definition train_test :: "(nat \<Rightarrow> nat \<Rightarrow> real) \<Rightarrow> 'a list \<Rightarrow> 'a list \<times> 'a list" where
  "train_test draw rows = spark_random_split draw rows 0.75 42"

text \<open>
  A rating record, with the schema of the notebook. The two identifiers are integers (the
  fitting routine accepts nothing else, and rejects a null); a rating and a timestamp may
  be null.
\<close>

record 'r rating_row =
  UserId :: int
  MovieId :: int
  Rating :: "'r option"
  Timestamp :: "int option"

text \<open>A scored pair: the two identifiers and the prediction.\<close>

record 'p pred_row =
  pred_UserId :: int
  pred_MovieId :: int
  prediction :: 'p

text \<open>
  \<^verbatim>\<open>
  users = train.select('UserId').distinct()
  items = train.select('MovieId').distinct()
  user_item = users.crossJoin(items)
  dfs_pred = model.transform(user_item)
  \<close>
  The fitted model is external: \<open>predict u i\<close> is its prediction for the pair, \<open>None\<close>
  when it has none (the row is dropped, \<^verbatim>\<open>coldStartStrategy='drop'\<close>).
\<close>

definition users :: "'r rating_row list \<Rightarrow> int list" where
  "users train = remdups (map UserId train)"

definition items :: "'r rating_row list \<Rightarrow> int list" where
  "items train = remdups (map MovieId train)"

definition crossJoin :: "'a list \<Rightarrow> 'b list \<Rightarrow> ('a \<times> 'b) list" where
  "crossJoin xs ys = List.product xs ys"

definition transform :: "(int \<Rightarrow> int \<Rightarrow> 'p option) \<Rightarrow> (int \<times> int) list \<Rightarrow> 'p pred_row list" where
  "transform predict user_item =
     List.map_filter
       (\<lambda>ui. map_option
                (\<lambda>p. \<lparr>pred_UserId = fst ui, pred_MovieId = snd ui, prediction = p\<rparr>)
                (predict (fst ui) (snd ui)))
       user_item"

definition dfs_pred :: "(int \<Rightarrow> int \<Rightarrow> 'p option) \<Rightarrow> 'r rating_row list \<Rightarrow> 'p pred_row list" where
  "dfs_pred predict train = transform predict (crossJoin (users train) (items train))"

text \<open>
  \<^verbatim>\<open>left.join(right, on, how='outer')\<close>: every pair of rows that satisfies the
  condition, every left row without a partner beside nulls, every right row without a
  partner beside nulls. A side of nulls is \<open>None\<close>.
\<close>

definition join_outer :: "('a \<Rightarrow> 'b \<Rightarrow> bool) \<Rightarrow> 'a list \<Rightarrow> 'b list \<Rightarrow> ('a option \<times> 'b option) list" where
  "join_outer on ls rs =
     concat (map (\<lambda>l. case filter (on l) rs of
                          [] \<Rightarrow> [(Some l, None)]
                        | m # ms \<Rightarrow> map (\<lambda>r. (Some l, Some r)) (m # ms)) ls)
     @ map (\<lambda>r. (None, Some r)) (filter (\<lambda>r. \<not> list_ex (\<lambda>l. on l r) ls) rs)"

text \<open>
  \<^verbatim>\<open>
  dfs_pred_exclude_train = dfs_pred.alias("pred").join(
      train.alias("train"),
      (dfs_pred['UserId'] == train['UserId']) & (dfs_pred['MovieId'] == train['MovieId']),
      how='outer')
  \<close>
\<close>

definition dfs_pred_exclude_train ::
  "(int \<Rightarrow> int \<Rightarrow> 'p option) \<Rightarrow> 'r rating_row list
     \<Rightarrow> ('p pred_row option \<times> 'r rating_row option) list" where
  "dfs_pred_exclude_train predict train =
     join_outer (\<lambda>p t. pred_UserId p = UserId t \<and> pred_MovieId p = MovieId t)
       (dfs_pred predict train) train"

text \<open>The column \<^verbatim>\<open>train.Rating\<close> of a joined row.\<close>

definition train_Rating :: "'p pred_row option \<times> 'r rating_row option \<Rightarrow> 'r option" where
  "train_Rating row = (case snd row of None \<Rightarrow> None | Some t \<Rightarrow> Rating t)"

text \<open>
  \<^verbatim>\<open>
  top_all = dfs_pred_exclude_train.filter(dfs_pred_exclude_train["train.Rating"].isNull())
      .select('pred.' + 'UserId', 'pred.' + 'MovieId', 'pred.' + "prediction")
  \<close>
\<close>

definition top_all ::
  "(int \<Rightarrow> int \<Rightarrow> 'p option) \<Rightarrow> 'r rating_row list \<Rightarrow> (int option \<times> int option \<times> 'p option) list" where
  "top_all predict train =
     map (\<lambda>row. (map_option pred_UserId (fst row), map_option pred_MovieId (fst row),
                  map_option prediction (fst row)))
       (filter (\<lambda>row. train_Rating row = None) (dfs_pred_exclude_train predict train))"

section \<open>Concrete inputs\<close>

definition demo_uuid :: string where
  "demo_uuid = ''3f2a9c1e-7b4d-4e8a-9c3f-1a2b3c4d5e6f''"

definition demo_secrets :: secrets where
  "demo_secrets = secrets_file demo_uuid ''c2VjcmV0''"

text \<open>The account as the service-creation step leaves a new one.\<close>

definition provisioned_account :: cosmos where
  "provisioned_account =
     \<lparr>dbs = [DOCUMENTDB_DATABASE],
      colls = [((DOCUMENTDB_DATABASE, DOCUMENTDB_COLLECTION),
                collection_resource collection_definition collection_options)],
      docs = Map.empty\<rparr>"

text \<open>A model that ranks twelve items for user 496 and two for user 12.\<close>

definition demo_model :: "unit als_model" where
  "demo_model =
     [(496, map (\<lambda>i. (i, ())) [50, 181, 100, 258, 1, 286, 127, 174, 98, 56, 7, 64]),
      (12, [(3, ()), (9, ())])]"

definition demo_account :: cosmos where
  "demo_account = fst (save_recs demo_model demo_secrets provisioned_account)"

definition demo_document :: pyval where
  "demo_document =
     PDict [(''id'', PStr ''496''),
            (''MovieId'', PList (map PInt [50, 181, 100, 258, 1, 286, 127, 174, 98, 56]))]"

text \<open>A world whose document client cannot be constructed (the key is refused), and one
  whose first read of the collection fails and whose later reads succeed.\<close>

definition refused :: exn where
  "refused = Exn ''HTTPFailure'' ''Status code: 401''"

definition unavailable :: exn where
  "unavailable = Exn ''HTTPFailure'' ''Status code: 503''"

definition refusing_world :: world where
  "refusing_world = (store_world demo_account)\<lparr>DocumentClient := (\<lambda>h k. Some refused)\<rparr>"

definition flaky_world :: world where
  "flaky_world = (store_world demo_account)\<lparr>ReadCollection := (\<lambda>cl l. Inl unavailable)\<rparr>"

text \<open>The request \<^verbatim>\<open>{"id":"496"}\<close>: the object itself, not wrapped in a list of strings.\<close>

definition plain_request :: string where
  "plain_request = ''{'' @ [dq] @ ''id'' @ [dq] @ '':'' @ [dq] @ ''496'' @ [dq] @ ''}''"

text \<open>The module after \<^verbatim>\<open>init\<close> in each of the three worlds.\<close>

definition demo_client :: document_client where
  "demo_client = DocumentClient_obj (Endpoint demo_secrets) (Masterkey demo_secrets)"

definition demo_init_calls :: "store_call list" where
  "demo_init_calls =
     [Call_DocumentClient (Endpoint demo_secrets) (Masterkey demo_secrets),
      Call_ReadCollection ''dbs/recommendations/colls/user_recommendations_als'']"

definition demo_loaded :: module_state where
  "demo_loaded =
     \<lparr>client = Some demo_client,
      collection = Some (CollectionResource
                     (collection_resource collection_definition collection_options)),
      calls = demo_init_calls\<rparr>"

definition demo_unbound :: module_state where
  "demo_unbound =
     \<lparr>client = None, collection = Some (CaughtException refused),
      calls = [Call_DocumentClient (Endpoint demo_secrets) (Masterkey demo_secrets)]\<rparr>"

definition demo_flaky :: module_state where
  "demo_flaky =
     \<lparr>client = Some demo_client, collection = Some (CaughtException unavailable),
      calls = demo_init_calls\<rparr>"

text \<open>A later model, which ranks two items for user 496 and knows no other user.\<close>

definition later_model :: "unit als_model" where
  "later_model = [(496, [(7, ()), (8, ())])]"

text \<open>Environments: nothing raises; the deployment raises and a service exists already.\<close>

definition all_succeed :: env where
  "all_succeed = \<lparr>raises = (\<lambda>c. None), existing_services = []\<rparr>"

definition deployment_fails :: env where
  "deployment_fails =
     \<lparr>raises = (\<lambda>c. if c = Deploy_from_image then Some (Exn ''WebserviceException'' ''failed'')
                     else None),
      existing_services = [''earlier-service'']\<rparr>"

definition fresh :: pstate where
  "fresh = \<lparr>account = empty_account, trace = [], aks_service = None\<rparr>"

definition rerun :: pstate where
  "rerun = \<lparr>account = provisioned_account, trace = [], aks_service = None\<rparr>"

text \<open>Draws that send the rows at even positions to the first part, and four ratings.\<close>

definition demo_draw :: "nat \<Rightarrow> nat \<Rightarrow> real" where
  "demo_draw seed i = (if even i then 0.25 else 0.875)"

definition demo_ratings :: "int rating_row list" where
  "demo_ratings =
     [\<lparr>UserId = 1, MovieId = 10, Rating = Some 5, Timestamp = Some 881250949\<rparr>,
      \<lparr>UserId = 1, MovieId = 20, Rating = Some 3, Timestamp = Some 891717742\<rparr>,
      \<lparr>UserId = 2, MovieId = 20, Rating = Some 1, Timestamp = Some 878887116\<rparr>,
      \<lparr>UserId = 2, MovieId = 30, Rating = Some 4, Timestamp = None\<rparr>]"

definition demo_train :: "int rating_row list" where
  "demo_train =
     [\<lparr>UserId = 1, MovieId = 10, Rating = Some 5, Timestamp = Some 881250949\<rparr>,
      \<lparr>UserId = 2, MovieId = 20, Rating = Some 1, Timestamp = Some 878887116\<rparr>]"

definition demo_predict :: "int \<Rightarrow> int \<Rightarrow> int option" where
  "demo_predict u i = Some (u + i)"


section \<open>Properties of the service names\<close>

lemma is_uuid_str_length: "is_uuid_str u \<Longrightarrow> length u = 36"
  by (auto simp: is_uuid_str_def uuid_shape_def dest: list_all2_lengthD)

lemma is_uuid_str_hex:
  assumes "is_uuid_str u" and "i < 8"
  shows "u ! i \<in> set hexdigits"
proof -
  have len: "length u = length uuid_shape" and
    all: "\<And>k. k < length u \<Longrightarrow>
       (if uuid_shape ! k = CHR ''-'' then u ! k = CHR ''-'' else u ! k \<in> set hexdigits)"
    using assms(1) by (auto simp: is_uuid_str_def list_all2_conv_all_nth)
  have "i < length u" using assms(2) len by (simp add: uuid_shape_def)
  moreover have "uuid_shape ! i \<noteq> CHR ''-''"
  proof -
    from assms(2) have "i \<in> {0, 1, 2, 3, 4, 5, 6, 7}" by auto
    then show ?thesis by (auto simp: uuid_shape_def)
  qed
  ultimately show ?thesis using all [of i] by simp
qed

lemma short_uuid_hex:
  assumes "is_uuid_str u"
  shows "length (short_uuid u) = 4" and "set (short_uuid u) \<subseteq> set hexdigits"
proof -
  have len: "length u = 36" using assms by (rule is_uuid_str_length)
  then show "length (short_uuid u) = 4" by (simp add: short_uuid_def slice0_def)
  show "set (short_uuid u) \<subseteq> set hexdigits"
  proof
    fix c assume "c \<in> set (short_uuid u)"
    then obtain i where "i < 4" "i < length u" "c = u ! i"
      by (auto simp: short_uuid_def slice0_def in_set_conv_nth)
    then show "c \<in> set hexdigits" using is_uuid_str_hex [OF assms, of i] by simp
  qed
qed

lemma str_replace1_no_old: "old \<noteq> new \<Longrightarrow> old \<notin> set (str_replace1 old new s)"
  by (auto simp: str_replace1_def)

lemma str_replace1_id: "old \<notin> set s \<Longrightarrow> str_replace1 old new s = s"
  by (induction s) (auto simp: str_replace1_def)

lemma prefix_no_underscore:
  assumes "is_uuid_str u"
  shows "CHR ''_'' \<notin> set (prefix u)"
proof -
  have "CHR ''_'' \<notin> set hexdigits" by (simp add: hexdigits_def)
  then have "CHR ''_'' \<notin> set (short_uuid u)" using short_uuid_hex(2) [OF assms] by blast
  then show ?thesis by (simp add: prefix_def)
qed

text \<open>
  C9. For every run prefix (\<open>reco\<close> followed by the first four characters of a UUID
  string) the Cosmos DB account name has no underscore and has length
  \<open>min 31 (length prefix) = 8\<close>; it is the prefix itself, so the \<open>-ds-sql\<close> suffix and
  the rest of the resource-group name are always cut off.
\<close>

theorem account_name_truncated:
  assumes "is_uuid_str u"
  shows "CHR ''_'' \<notin> set (account_name u)
       \<and> length (account_name u) = min 31 (length (prefix u))
       \<and> min 31 (length (prefix u)) = 8
       \<and> account_name u = prefix u
       \<and> resource_group u @ ''-ds-sql'' = prefix u @ ''_mvl-ds-sql''"
proof -
  have len: "length (prefix u) = 8"
    using short_uuid_hex(1) [OF assms] by (simp add: prefix_def)
  have rep: "str_replace1 (CHR ''_'') (CHR ''-'') (resource_group u @ ''-ds-sql'')
             = prefix u @ str_replace1 (CHR ''_'') (CHR ''-'') (''_'' @ data @ ''-ds-sql'')"
    using str_replace1_id [OF prefix_no_underscore [OF assms], of "CHR ''-''"]
    by (simp add: resource_group_def str_replace1_def)
  have eq: "account_name u = prefix u"
    unfolding account_name_def slice0_def rep using len by simp
  have "CHR ''_'' \<notin> set (account_name u)"
    unfolding eq by (rule prefix_no_underscore [OF assms])
  moreover have "resource_group u @ ''-ds-sql'' = prefix u @ ''_mvl-ds-sql''"
    by (simp add: resource_group_def data_def)
  ultimately show ?thesis using len eq by simp
qed

theorem account_name_truncated_witness:
  "is_uuid_str ''3f2a9c1e-7b4d-4e8a-9c3f-1a2b3c4d5e6f''
   \<and> account_name ''3f2a9c1e-7b4d-4e8a-9c3f-1a2b3c4d5e6f'' = ''reco3f2a''
   \<and> length (account_name ''3f2a9c1e-7b4d-4e8a-9c3f-1a2b3c4d5e6f'') = 8
   \<and> CHR ''_'' \<notin> set (account_name ''3f2a9c1e-7b4d-4e8a-9c3f-1a2b3c4d5e6f'')"
proof -
  have h: "is_uuid_str ''3f2a9c1e-7b4d-4e8a-9c3f-1a2b3c4d5e6f''"
    by (simp add: is_uuid_str_def uuid_shape_def hexdigits_def)
  have p: "prefix ''3f2a9c1e-7b4d-4e8a-9c3f-1a2b3c4d5e6f'' = ''reco3f2a''"
    by (simp add: prefix_def short_uuid_def slice0_def)
  show ?thesis using h account_name_truncated [OF h] by (simp add: p)
qed


section \<open>Properties of the scoring script\<close>

lemma lookups_append: "lookups (xs @ ys) = lookups xs @ lookups ys"
  by (induction xs rule: lookups.induct) simp_all

lemma run_calls:
  "calls (fst (run w s input_json)) =
     calls s @
       (case extract_id w input_json of
          Inl e \<Rightarrow> []
        | Inr i \<Rightarrow>
            (case client s of
               None \<Rightarrow> []
             | Some cl \<Rightarrow>
                 [Call_ReadDocument (docs_link @ py_str i)
                    (PDict [(''partitionKey'', PStr (py_str i))])]))"
  by (simp add: run_def run_try_def Let_def py_format_def split: sum.splits option.splits)

lemma extract_id_shape:
  "(extract_id w input_json = Inr i) =
     (\<exists>a b c. json_loads w input_json = Inr a \<and> getitem_index a 0 = Inr b
              \<and> py_json_loads w b = Inr c \<and> getitem_key c ''id'' = Inr i)"
  by (auto simp: extract_id_def split: sum.splits)

lemma decode_input_data:
  "json_decode input_data = Some (PList [PStr plain_request])"
  by code_simp

lemma decode_plain_request:
  "json_decode plain_request = Some (PDict [(''id'', PStr ''496'')])"
  by code_simp

lemma extract_id_input_data: "extract_id (store_world acct) input_data = Inr (PStr ''496'')"
  by (simp add: extract_id_def store_world_def decode_input_data decode_plain_request
      getitem_index_def getitem_key_def py_json_loads_def)

lemma extract_id_plain_request:
  "extract_id (store_world acct) plain_request = Inl (Exn ''KeyError'' ''0'')"
  by (simp add: extract_id_def store_world_def decode_plain_request getitem_index_def
      dec_nat.simps)

lemma init_store_world:
  "init (store_world demo_account) demo_secrets unloaded = (demo_loaded, Inr ())"
  by code_simp

lemma init_refusing_world:
  "init refusing_world demo_secrets unloaded = (demo_unbound, Inr ())"
  by code_simp

lemma init_flaky_world:
  "init flaky_world demo_secrets unloaded = (demo_flaky, Inr ())"
  by code_simp


lemma run_try_store_world:
  "run_try (store_world demo_account) demo_loaded input_data =
     (demo_loaded\<lparr>calls := demo_init_calls @
         [Call_ReadDocument ''dbs/recommendations/colls/user_recommendations_als/docs/496''
            (PDict [(''partitionKey'', PStr ''496'')])]\<rparr>,
      Inr demo_document)"
  by code_simp

lemma run_try_flaky_world:
  "run_try flaky_world demo_flaky input_data =
     (demo_flaky\<lparr>calls := demo_init_calls @
         [Call_ReadDocument ''dbs/recommendations/colls/user_recommendations_als/docs/496''
            (PDict [(''partitionKey'', PStr ''496'')])]\<rparr>,
      Inr demo_document)"
  by code_simp

lemma run_try_refusing_world:
  "run_try refusing_world demo_unbound input_data =
     (demo_unbound, Inl (Exn ''NameError'' (''name '' @ [sq] @ ''client'' @ [sq] @ '' is not defined'')))"
  by code_simp

lemma run_try_plain_request:
  "run_try (store_world demo_account) demo_loaded plain_request =
     (demo_loaded, Inl (Exn ''KeyError'' ''0''))"
  by (simp add: run_try_def extract_id_plain_request)

lemma demo_document_text:
  "json_dumps (py_str demo_document) =
     [dq] @ ''{'' @ [sq] @ ''id'' @ [sq] @ '': '' @ [sq] @ ''496'' @ [sq] @ '', '' @ [sq] @ ''MovieId''
       @ [sq] @ '': [50, 181, 100, 258, 1, 286, 127, 174, 98, 56]}'' @ [dq]"
  by code_simp

lemma json_dumps_not_empty: "json_dumps s \<noteq> []"
  by (simp add: json_dumps_def)

text \<open>
  C1 (as amended). \<^verbatim>\<open>run\<close> performs a point lookup exactly when the request has the
  shape that the script decodes (the body decodes to a value whose first element is a
  string that decodes to a value with a field \<open>id\<close>) and \<^verbatim>\<open>init\<close> has bound
  \<^verbatim>\<open>client\<close>: then it performs exactly one \<^verbatim>\<open>ReadDocument\<close>, whose link ends in
  \<^verbatim>\<open>str(id)\<close> and whose partition key is \<^verbatim>\<open>str(id)\<close>. In every other case it performs
  none. The request of the demonstration client has that shape, with the identifier
  \<open>496\<close>.
\<close>

theorem run_lookups:
  "lookups (calls (fst (run w s input_json))) =
     lookups (calls s) @
       (case extract_id w input_json of
          Inl e \<Rightarrow> []
        | Inr i \<Rightarrow>
            (case client s of
               None \<Rightarrow> []
             | Some cl \<Rightarrow> [(docs_link @ py_str i, PDict [(''partitionKey'', PStr (py_str i))])]))
   \<and> ((extract_id w input_json = Inr i') =
        (\<exists>a b c. json_loads w input_json = Inr a \<and> getitem_index a 0 = Inr b
                 \<and> py_json_loads w b = Inr c \<and> getitem_key c ''id'' = Inr i'))
   \<and> extract_id (store_world acct) input_data = Inr (PStr ''496'')"
proof -
  have "lookups (calls (fst (run w s input_json))) =
     lookups (calls s) @
       (case extract_id w input_json of
          Inl e \<Rightarrow> []
        | Inr i \<Rightarrow>
            (case client s of
               None \<Rightarrow> []
             | Some cl \<Rightarrow> [(docs_link @ py_str i, PDict [(''partitionKey'', PStr (py_str i))])]))"
    unfolding run_calls lookups_append by (simp split: sum.splits option.splits)
  then show ?thesis
    using extract_id_shape [of w input_json i'] extract_id_input_data [of acct] by simp
qed

theorem run_lookups_witness:
  "client demo_loaded = Some demo_client
   \<and> lookups (calls demo_loaded) = []
   \<and> lookups (calls (fst (run (store_world demo_account) demo_loaded input_data))) =
       [(''dbs/recommendations/colls/user_recommendations_als/docs/496'',
         PDict [(''partitionKey'', PStr ''496'')])]"
proof -
  have c: "client demo_loaded = Some demo_client" by (simp add: demo_loaded_def)
  have l: "lookups (calls demo_loaded) = []" by (simp add: demo_loaded_def demo_init_calls_def)
  have d: "docs_link = ''dbs/recommendations/colls/user_recommendations_als/docs/''"
    by (simp add: docs_link_def DOCUMENTDB_DATABASE_def DOCUMENTDB_COLLECTION_def algo_def)
  show ?thesis
    using run_lookups [of "store_world demo_account" demo_loaded input_data "PStr ''496''" demo_account]
    by (simp add: c l d py_str_def)
qed

theorem run_lookups_counterexample:
  "init refusing_world demo_secrets unloaded = (demo_unbound, Inr ())
   \<and> lookups (calls (fst (run refusing_world demo_unbound input_data))) = []
   \<and> init (store_world demo_account) demo_secrets unloaded = (demo_loaded, Inr ())
   \<and> lookups (calls (fst (run (store_world demo_account) demo_loaded plain_request))) = []"
proof -
  have "calls (fst (run refusing_world demo_unbound input_data)) = calls demo_unbound"
    by (simp add: run_def run_try_refusing_world)
  moreover have "calls (fst (run (store_world demo_account) demo_loaded plain_request))
      = calls demo_loaded"
    by (simp add: run_def run_try_plain_request)
  ultimately show ?thesis
    by (simp add: init_refusing_world init_store_world demo_unbound_def demo_loaded_def
        demo_init_calls_def)
qed

text \<open>
  C2. When the lookup succeeds, that is, when \<^verbatim>\<open>ReadDocument\<close> returns a document for
  the link and the partition key of the requested identifier, \<^verbatim>\<open>run\<close> returns
  \<^verbatim>\<open>json.dumps(str(document))\<close>.
\<close>

theorem run_returns_document:
  assumes "extract_id w input_json = Inr i"
    and "client s = Some cl"
    and "ReadDocument w cl (docs_link @ py_format i) (PDict [(''partitionKey'', PStr (py_str i))])
           = Inr doc"
  shows "snd (run w s input_json) = Inr (json_dumps (py_str doc))"
  using assms by (simp add: run_def run_try_def Let_def)

theorem run_returns_document_witness:
  "extract_id (store_world demo_account) input_data = Inr (PStr ''496'')
   \<and> client demo_loaded = Some demo_client
   \<and> ReadDocument (store_world demo_account) demo_client (docs_link @ py_format (PStr ''496''))
        (PDict [(''partitionKey'', PStr (py_str (PStr ''496'')))]) = Inr demo_document
   \<and> docs demo_account (DOCUMENTDB_DATABASE, DOCUMENTDB_COLLECTION, ''496'') = Some demo_document
   \<and> snd (run (store_world demo_account) demo_loaded input_data) =
       Inr ([dq] @ ''{'' @ [sq] @ ''id'' @ [sq] @ '': '' @ [sq] @ ''496'' @ [sq] @ '', '' @ [sq]
            @ ''MovieId'' @ [sq] @ '': [50, 181, 100, 258, 1, 286, 127, 174, 98, 56]}'' @ [dq])"
proof -
  have e: "extract_id (store_world demo_account) input_data = Inr (PStr ''496'')"
    by (rule extract_id_input_data)
  have c: "client demo_loaded = Some demo_client" by (simp add: demo_loaded_def)
  have r: "ReadDocument (store_world demo_account) demo_client (docs_link @ py_format (PStr ''496''))
        (PDict [(''partitionKey'', PStr (py_str (PStr ''496'')))]) = Inr demo_document"
    by code_simp
  have d: "docs demo_account (DOCUMENTDB_DATABASE, DOCUMENTDB_COLLECTION, ''496'') = Some demo_document"
    by code_simp
  show ?thesis
    using run_returns_document [OF e c r] e c r d by (simp add: demo_document_text)
qed

text \<open>
  C3 (as amended). Neither function raises. \<^verbatim>\<open>run\<close> returns
  \<^verbatim>\<open>json.dumps(str(e))\<close> for every exception \<open>e\<close> raised in its body. \<^verbatim>\<open>init\<close>
  catches every exception raised in its body and assigns the exception itself to the global
  \<^verbatim>\<open>collection\<close>; it returns nothing, so that exception reaches no caller.
\<close>

theorem script_never_raises:
  "(\<exists>out. snd (run w s input_json) = Inr out)
   \<and> (run_try w s input_json = (s', Inl e) \<longrightarrow>
        run w s input_json = (s', Inr (json_dumps (exn_str e))))
   \<and> snd (init w sec s0) = Inr ()
   \<and> (init_try w sec s0 = (s1, Inl e') \<longrightarrow>
        fst (init w sec s0) = s1\<lparr>collection := Some (CaughtException e')\<rparr>)"
proof -
  have "\<exists>out. snd (run w s input_json) = Inr out"
    by (cases "run_try w s input_json") (auto simp: run_def split: sum.splits)
  moreover have "run_try w s input_json = (s', Inl e) \<longrightarrow>
        run w s input_json = (s', Inr (json_dumps (exn_str e)))"
    by (simp add: run_def py_str_def)
  moreover have "snd (init w sec s0) = Inr ()"
    by (cases "init_try w sec s0") (auto simp: init_def split: sum.splits)
  moreover have "init_try w sec s0 = (s1, Inl e') \<longrightarrow>
        fst (init w sec s0) = s1\<lparr>collection := Some (CaughtException e')\<rparr>"
    by (simp add: init_def)
  ultimately show ?thesis by blast
qed

lemma init_try_refusing_world:
  "init_try refusing_world demo_secrets unloaded =
     (unloaded\<lparr>calls := [Call_DocumentClient (Endpoint demo_secrets) (Masterkey demo_secrets)]\<rparr>,
      Inl refused)"
  by code_simp

theorem script_never_raises_witness:
  "run_try refusing_world demo_unbound input_data =
     (demo_unbound, Inl (Exn ''NameError'' (''name '' @ [sq] @ ''client'' @ [sq] @ '' is not defined'')))
   \<and> run refusing_world demo_unbound input_data =
       (demo_unbound, Inr ([dq] @ ''name '' @ [sq] @ ''client'' @ [sq] @ '' is not defined'' @ [dq]))
   \<and> init_try refusing_world demo_secrets unloaded =
       (unloaded\<lparr>calls := [Call_DocumentClient (Endpoint demo_secrets) (Masterkey demo_secrets)]\<rparr>,
        Inl refused)
   \<and> init refusing_world demo_secrets unloaded = (demo_unbound, Inr ())"
proof -
  have t: "json_dumps (''name '' @ [sq] @ ''client'' @ [sq] @ '' is not defined'')
      = [dq] @ ''name '' @ [sq] @ ''client'' @ [sq] @ '' is not defined'' @ [dq]"
    by code_simp
  show ?thesis
    using script_never_raises [of refusing_world demo_unbound input_data demo_unbound
        "Exn ''NameError'' (''name '' @ [sq] @ ''client'' @ [sq] @ '' is not defined'')"
        demo_secrets unloaded
        "unloaded\<lparr>calls := [Call_DocumentClient (Endpoint demo_secrets) (Masterkey demo_secrets)]\<rparr>"
        refused]
      run_try_refusing_world init_try_refusing_world init_refusing_world t
    by simp
qed

theorem init_error_returned_counterexample:
  "init flaky_world demo_secrets unloaded = (demo_flaky, Inr ())
   \<and> collection demo_flaky = Some (CaughtException unavailable)
   \<and> snd (run flaky_world demo_flaky input_data) = Inr (json_dumps (py_str demo_document))
   \<and> json_dumps (py_str demo_document) \<noteq> json_dumps (exn_str unavailable)
   \<and> init refusing_world demo_secrets unloaded = (demo_unbound, Inr ())
   \<and> collection demo_unbound = Some (CaughtException refused)
   \<and> snd (run refusing_world demo_unbound input_data) \<noteq> Inr (json_dumps (exn_str refused))"
proof -
  have a: "snd (run flaky_world demo_flaky input_data) = Inr (json_dumps (py_str demo_document))"
    by (simp add: run_def run_try_flaky_world)
  have b: "json_dumps (py_str demo_document) \<noteq> json_dumps (exn_str unavailable)"
    by code_simp
  have c: "snd (run refusing_world demo_unbound input_data) \<noteq> Inr (json_dumps (exn_str refused))"
    by code_simp
  show ?thesis
    using a b c by (simp add: init_flaky_world init_refusing_world demo_flaky_def demo_unbound_def)
qed


section \<open>Properties of the persisted recommendations\<close>


lemma digit_inj:
  assumes "a < 10" "b < 10" "''0123456789'' ! a = ''0123456789'' ! b"
  shows "a = b"
proof -
  have "distinct ''0123456789''" by simp
  moreover have "a < length ''0123456789''" "b < length ''0123456789''" using assms by simp_all
  ultimately show ?thesis using assms(3) by (simp only: nth_eq_iff_index_eq)
qed

lemma dec_nat_small: "n < 10 \<Longrightarrow> dec_nat n = [''0123456789'' ! n]"
  by (subst dec_nat.simps) simp

lemma dec_nat_large:
  "\<not> n < 10 \<Longrightarrow> dec_nat n = dec_nat (n div 10) @ [''0123456789'' ! (n mod 10)]"
  by (subst dec_nat.simps) simp

lemma dec_nat_not_Nil: "dec_nat n \<noteq> []"
  by (cases "n < 10") (simp_all add: dec_nat_small dec_nat_large)

lemma subset_single: "x \<in> S \<Longrightarrow> A = {x} \<Longrightarrow> A \<subseteq> S"
  by simp

lemma subset_snoc: "x \<in> S \<Longrightarrow> A = B \<union> {x} \<Longrightarrow> B \<subseteq> S \<Longrightarrow> A \<subseteq> S"
  by auto

lemma dec_nat_digits: "set (dec_nat n) \<subseteq> set ''0123456789''"
proof (induction n rule: dec_nat.induct)
  case (1 n)
  show ?case
  proof (cases "n < 10")
    case True
    then have "n < length ''0123456789''" by simp
    then have "''0123456789'' ! n \<in> set ''0123456789''" by (rule nth_mem)
    moreover have "set (dec_nat n) = {''0123456789'' ! n}"
      by (simp only: dec_nat_small [OF True] list.set)
    ultimately show ?thesis by (rule subset_single)
  next
    case False
    have "n mod 10 < length ''0123456789''" by simp
    then have "''0123456789'' ! (n mod 10) \<in> set ''0123456789''" by (rule nth_mem)
    moreover have "set (dec_nat n) = set (dec_nat (n div 10)) \<union> {''0123456789'' ! (n mod 10)}"
      by (simp only: dec_nat_large [OF False] set_append list.set)
    moreover note 1 [OF False]
    ultimately show ?thesis by (rule subset_snoc)
  qed
qed

lemma dec_nat_inj: "dec_nat n = dec_nat m \<Longrightarrow> n = m"
proof (induction n arbitrary: m rule: dec_nat.induct)
  case (1 n)
  show ?case
  proof (cases "n < 10")
    case n: True
    show ?thesis
    proof (cases "m < 10")
      case True
      with n 1(2) show ?thesis by (simp add: dec_nat_small digit_inj)
    next
      case False
      with n 1(2) dec_nat_not_Nil [of "m div 10"] show ?thesis
        by (simp add: dec_nat_small dec_nat_large)
    qed
  next
    case n: False
    show ?thesis
    proof (cases "m < 10")
      case True
      with n 1(2) dec_nat_not_Nil [of "n div 10"] show ?thesis
        by (simp add: dec_nat_small dec_nat_large)
    next
      case False
      with n 1(2) have eq: "dec_nat (n div 10) = dec_nat (m div 10)"
        and d: "''0123456789'' ! (n mod 10) = ''0123456789'' ! (m mod 10)"
        by (simp_all add: dec_nat_large)
      from 1(1) [OF n eq] have "n div 10 = m div 10" .
      moreover from d have "n mod 10 = m mod 10" by (intro digit_inj) simp_all
      ultimately show ?thesis by (metis div_mult_mod_eq)
    qed
  qed
qed

lemma dec_nat_no_minus: "CHR ''-'' \<notin> set (dec_nat n)"
  using dec_nat_digits [of n] by auto

lemma dec_int_inj: "dec_int i = dec_int j \<Longrightarrow> i = j"
proof -
  assume eq: "dec_int i = dec_int j"
  have hd_neg: "\<And>k. k < 0 \<Longrightarrow> hd (dec_int k) = CHR ''-''" by (simp add: dec_int_def)
  have hd_pos: "\<And>k. \<not> k < 0 \<Longrightarrow> hd (dec_int k) \<noteq> CHR ''-''"
  proof -
    fix k :: int assume "\<not> k < 0"
    then have "dec_int k = dec_nat (nat k)" by (simp add: dec_int_def)
    moreover have "hd (dec_nat (nat k)) \<in> set (dec_nat (nat k))"
      using dec_nat_not_Nil [of "nat k"] by (rule hd_in_set)
    ultimately show "hd (dec_int k) \<noteq> CHR ''-''"
      using dec_nat_no_minus [of "nat k"] by auto
  qed
  show "i = j"
  proof (cases "i < 0")
    case True
    then have "j < 0" using hd_neg [of i] hd_pos [of j] eq by auto
    with True eq have "dec_nat (nat (- i)) = dec_nat (nat (- j))" by (simp add: dec_int_def)
    then have "nat (- i) = nat (- j)" by (rule dec_nat_inj)
    with True \<open>j < 0\<close> show ?thesis by simp
  next
    case False
    then have "\<not> j < 0" using hd_neg [of j] hd_pos [of i] eq by auto
    with False eq have "dec_nat (nat i) = dec_nat (nat j)" by (simp add: dec_int_def)
    then have "nat i = nat j" by (rule dec_nat_inj)
    with False \<open>\<not> j < 0\<close> show ?thesis by simp
  qed
qed

lemma cast_string_inj: "inj cast_string"
  by (rule injI) (simp add: cast_string_def dec_int_inj)

lemma select_id_items_keys:
  "map fst (select_id_items recs) = map cast_string (map fst recs)"
  by (simp add: select_id_items_def)

lemma recommendForAllUsers_users: "map fst (recommendForAllUsers m n) = map fst m"
  by (simp add: recommendForAllUsers_def)

lemma distinct_written_ids:
  assumes "distinct (map fst m)"
  shows "distinct (map fst (select_id_items (recommendForAllUsers m n)))"
proof -
  have "inj_on cast_string (set (map fst m))"
    by (rule inj_on_subset [OF cast_string_inj]) simp
  with assms have "distinct (map cast_string (map fst m))"
    by (simp only: distinct_map)
  then show ?thesis
    by (simp only: select_id_items_keys recommendForAllUsers_users)
qed

lemma has_collection_docs_update [simp]:
  "has_collection (c\<lparr>docs := x\<rparr>) d k = has_collection c d k"
  by (simp add: has_collection_def)

lemma upsert_row:
  "has_collection c d k \<Longrightarrow>
     cosmos_UpsertDocument c d k (row_document row)
       = (c\<lparr>docs := (docs c)((d, k, fst row) \<mapsto> row_document row)\<rparr>, Inr ())"
  by (simp add: cosmos_UpsertDocument_def row_document_def getitem_key_def)

lemma write_rows_upsert:
  "has_collection c d k \<Longrightarrow>
     write_rows True d k rows c = (c\<lparr>docs := written d k rows (docs c)\<rparr>, Inr ())"
proof (induction rows arbitrary: c)
  case Nil
  then show ?case by (simp add: written_def)
next
  case (Cons row rows)
  let ?c' = "c\<lparr>docs := (docs c)((d, k, fst row) \<mapsto> row_document row)\<rparr>"
  have h: "has_collection ?c' d k" using Cons.prems by simp
  have "write_rows True d k (row # rows) c = write_rows True d k rows ?c'"
    using Cons.prems by (simp add: upsert_row)
  also have "\<dots> = (?c'\<lparr>docs := written d k rows (docs ?c')\<rparr>, Inr ())"
    by (rule Cons.IH [OF h])
  also have "\<dots> = (c\<lparr>docs := written d k (row # rows) (docs c)\<rparr>, Inr ())"
    by (simp add: written_def)
  finally show ?case .
qed

lemma written_other:
  "(d', k') \<noteq> (d, k) \<Longrightarrow> written d k rows m (d', k', i) = m (d', k', i)"
  by (induction rows arbitrary: m) (auto simp: written_def)

lemma written_absent:
  "i \<notin> set (map fst rows) \<Longrightarrow> written d k rows m (d, k, i) = m (d, k, i)"
  by (induction rows arbitrary: m) (auto simp: written_def)

lemma written_present:
  "distinct (map fst rows) \<Longrightarrow> (i, xs) \<in> set rows \<Longrightarrow>
     written d k rows m (d, k, i) = Some (row_document (i, xs))"
proof (induction rows arbitrary: m)
  case Nil
  then show ?case by simp
next
  case (Cons row rows)
  show ?case
  proof (cases "row = (i, xs)")
    case True
    with Cons.prems(1) have "i \<notin> set (map fst rows)" by auto
    from written_absent [OF this] True show ?thesis
      using written_def by (simp add: written_def)
  next
    case False
    with Cons.prems have "(i, xs) \<in> set rows" "distinct (map fst rows)" by auto
    from Cons.IH [OF this(2) this(1)] show ?thesis by (simp add: written_def)
  qed
qed


lemma save_recs_docs:
  assumes "has_collection c (Database cfg) (Collection cfg)"
  shows "save_recs m cfg c =
     (c\<lparr>docs := written (Database cfg) (Collection cfg)
                    (select_id_items (recommendForAllUsers m 10)) (docs c)\<rparr>, Inr ())"
  using assms by (simp add: save_recs_def cosmosdb_spark_save_def write_rows_upsert)

lemma written_user:
  assumes "distinct (map fst m)" and "(u, ranked) \<in> set m"
  shows "written d k (select_id_items (recommendForAllUsers m 10)) old (d, k, cast_string u) =
     Some (PDict [(''id'', PStr (cast_string u)),
                  (''MovieId'', PList (map PInt (map fst (take 10 ranked))))])"
proof -
  have "(cast_string u, map fst (take 10 ranked)) \<in> set (select_id_items (recommendForAllUsers m 10))"
    using assms(2) by (force simp: select_id_items_def recommendForAllUsers_def)
  from written_present [OF distinct_written_ids [OF assms(1)] this]
  show ?thesis by (simp add: row_document_def)
qed

lemma written_other_user:
  assumes "i \<notin> cast_string ` fst ` set m"
  shows "written d k (select_id_items (recommendForAllUsers m 10)) old (d, k, i) = old (d, k, i)"
proof -
  have "i \<notin> set (map fst (select_id_items (recommendForAllUsers m 10)))"
    using assms by (simp add: select_id_items_keys recommendForAllUsers_users image_image)
  then show ?thesis by (rule written_absent)
qed

text \<open>
  C4. Each written record pairs the user identifier, cast to a string under the key
  \<open>id\<close>, with the ordered list of the at most 10 item identifiers that
  \<^verbatim>\<open>recommendForAllUsers(10)\<close> gives for that user. The write is in mode
  \<^verbatim>\<open>overwrite\<close> with \<^verbatim>\<open>Upsert\<close> set to \<open>true\<close>: after it the document under a
  written user's key is exactly the new record, whatever the store held before, and the
  documents under other keys are untouched. So of two runs the later one wins, for every
  user it writes.
\<close>

theorem save_recs_replaces_records:
  assumes "has_collection c (Database cfg) (Collection cfg)"
    and "distinct (map fst m)" and "distinct (map fst m')"
  shows "\<exists>c1 c2.
     save_recs m cfg c = (c1, Inr ()) \<and> save_recs m' cfg c1 = (c2, Inr ())
     \<and> (\<forall>u ranked. (u, ranked) \<in> set m \<longrightarrow>
           docs c1 (Database cfg, Collection cfg, cast_string u) =
             Some (PDict [(''id'', PStr (cast_string u)),
                          (''MovieId'', PList (map PInt (map fst (take 10 ranked))))])
           \<and> length (map fst (take 10 ranked)) \<le> 10)
     \<and> (\<forall>i. i \<notin> cast_string ` fst ` set m \<longrightarrow>
           docs c1 (Database cfg, Collection cfg, i) = docs c (Database cfg, Collection cfg, i))
     \<and> (\<forall>u ranked. (u, ranked) \<in> set m' \<longrightarrow>
           docs c2 (Database cfg, Collection cfg, cast_string u) =
             Some (PDict [(''id'', PStr (cast_string u)),
                          (''MovieId'', PList (map PInt (map fst (take 10 ranked))))]))
     \<and> (\<forall>i. i \<notin> cast_string ` fst ` set m' \<longrightarrow>
           docs c2 (Database cfg, Collection cfg, i) = docs c1 (Database cfg, Collection cfg, i))
     \<and> save_recs m cfg c =
         cosmosdb_spark_save ''overwrite'' cfg (select_id_items (recommendForAllUsers m 10)) c
     \<and> Upsert (secrets_file uuid key) = ''true''"
proof -
  let ?d = "Database cfg" and ?k = "Collection cfg"
  let ?c1 = "c\<lparr>docs := written ?d ?k (select_id_items (recommendForAllUsers m 10)) (docs c)\<rparr>"
  let ?c2 = "?c1\<lparr>docs := written ?d ?k (select_id_items (recommendForAllUsers m' 10)) (docs ?c1)\<rparr>"
  have s1: "save_recs m cfg c = (?c1, Inr ())"
    by (rule save_recs_docs [OF assms(1)])
  have "has_collection ?c1 ?d ?k" using assms(1) by simp
  then have s2: "save_recs m' cfg ?c1 = (?c2, Inr ())"
    by (rule save_recs_docs)
  have a: "\<forall>u ranked. (u, ranked) \<in> set m \<longrightarrow>
           docs ?c1 (?d, ?k, cast_string u) =
             Some (PDict [(''id'', PStr (cast_string u)),
                          (''MovieId'', PList (map PInt (map fst (take 10 ranked))))])
           \<and> length (map fst (take 10 ranked)) \<le> 10"
    using written_user [OF assms(2)] by simp
  have b: "\<forall>i. i \<notin> cast_string ` fst ` set m \<longrightarrow> docs ?c1 (?d, ?k, i) = docs c (?d, ?k, i)"
    using written_other_user [of _ m] by simp
  have a': "\<forall>u ranked. (u, ranked) \<in> set m' \<longrightarrow>
           docs ?c2 (?d, ?k, cast_string u) =
             Some (PDict [(''id'', PStr (cast_string u)),
                          (''MovieId'', PList (map PInt (map fst (take 10 ranked))))])"
    using written_user [OF assms(3)] by simp
  have b': "\<forall>i. i \<notin> cast_string ` fst ` set m' \<longrightarrow> docs ?c2 (?d, ?k, i) = docs ?c1 (?d, ?k, i)"
    using written_other_user [of _ m'] by simp
  have u: "Upsert (secrets_file uuid key) = ''true''" by (simp add: secrets_file_def)
  have o: "save_recs m cfg c =
         cosmosdb_spark_save ''overwrite'' cfg (select_id_items (recommendForAllUsers m 10)) c"
    by (simp add: save_recs_def)
  show ?thesis
    using s1 s2 a b a' b' u o by blast
qed

lemma demo_first_save:
  "save_recs demo_model demo_secrets provisioned_account = (demo_account, Inr ())"
proof -
  have "has_collection provisioned_account (Database demo_secrets) (Collection demo_secrets)"
    by (simp add: has_collection_def provisioned_account_def demo_secrets_def secrets_file_def)
  from save_recs_docs [OF this, of demo_model] show ?thesis
    by (simp add: demo_account_def)
qed

theorem save_recs_replaces_records_witness:
  "has_collection provisioned_account (Database demo_secrets) (Collection demo_secrets)
   \<and> distinct (map fst demo_model) \<and> distinct (map fst later_model)
   \<and> save_recs demo_model demo_secrets provisioned_account = (demo_account, Inr ())
   \<and> docs demo_account (DOCUMENTDB_DATABASE, DOCUMENTDB_COLLECTION, ''496'') =
       Some (PDict [(''id'', PStr ''496''),
                    (''MovieId'', PList (map PInt [50, 181, 100, 258, 1, 286, 127, 174, 98, 56]))])
   \<and> docs demo_account (DOCUMENTDB_DATABASE, DOCUMENTDB_COLLECTION, ''12'') =
       Some (PDict [(''id'', PStr ''12''), (''MovieId'', PList [PInt 3, PInt 9])])
   \<and> docs (fst (save_recs later_model demo_secrets demo_account))
        (DOCUMENTDB_DATABASE, DOCUMENTDB_COLLECTION, ''496'') =
       Some (PDict [(''id'', PStr ''496''), (''MovieId'', PList [PInt 7, PInt 8])])
   \<and> docs (fst (save_recs later_model demo_secrets demo_account))
        (DOCUMENTDB_DATABASE, DOCUMENTDB_COLLECTION, ''12'') =
       Some (PDict [(''id'', PStr ''12''), (''MovieId'', PList [PInt 3, PInt 9])])"
proof -
  have h: "has_collection provisioned_account (Database demo_secrets) (Collection demo_secrets)"
    by (simp add: has_collection_def provisioned_account_def demo_secrets_def secrets_file_def)
  have d1: "distinct (map fst demo_model)" by (simp add: demo_model_def)
  have d2: "distinct (map fst later_model)" by (simp add: later_model_def)
  have db: "Database demo_secrets = DOCUMENTDB_DATABASE" "Collection demo_secrets = DOCUMENTDB_COLLECTION"
    by (simp_all add: demo_secrets_def secrets_file_def)
  have m1: "(496, map (\<lambda>i. (i, ())) [50, 181, 100, 258, 1, 286, 127, 174, 98, 56, 7, 64]) \<in> set demo_model"
    and m2: "(12, [(3, ()), (9, ())]) \<in> set demo_model"
    and m3: "(496, [(7, ()), (8, ())]) \<in> set later_model"
    by (simp_all add: demo_model_def later_model_def)
  have c496: "cast_string 496 = ''496''" and c12: "cast_string 12 = ''12''"
    by (simp_all add: cast_string_def dec_int_def dec_nat.simps)
  have n12: "''12'' \<notin> cast_string ` fst ` set later_model"
    by (simp add: later_model_def c496)
  from save_recs_replaces_records [OF h d1 d2, of demo_uuid "''c2VjcmV0''"]
  obtain c1 c2 where
    s1: "save_recs demo_model demo_secrets provisioned_account = (c1, Inr ())" and
    s2: "save_recs later_model demo_secrets c1 = (c2, Inr ())" and
    a: "\<And>u ranked. (u, ranked) \<in> set demo_model \<Longrightarrow>
           docs c1 (DOCUMENTDB_DATABASE, DOCUMENTDB_COLLECTION, cast_string u) =
             Some (PDict [(''id'', PStr (cast_string u)),
                          (''MovieId'', PList (map PInt (map fst (take 10 ranked))))])" and
    a': "\<And>u ranked. (u, ranked) \<in> set later_model \<Longrightarrow>
           docs c2 (DOCUMENTDB_DATABASE, DOCUMENTDB_COLLECTION, cast_string u) =
             Some (PDict [(''id'', PStr (cast_string u)),
                          (''MovieId'', PList (map PInt (map fst (take 10 ranked))))])" and
    b': "\<And>i. i \<notin> cast_string ` fst ` set later_model \<Longrightarrow>
           docs c2 (DOCUMENTDB_DATABASE, DOCUMENTDB_COLLECTION, i) =
           docs c1 (DOCUMENTDB_DATABASE, DOCUMENTDB_COLLECTION, i)"
    unfolding db by blast
  have c1: "c1 = demo_account" using s1 by (simp add: demo_first_save)
  have c2: "c2 = fst (save_recs later_model demo_secrets demo_account)" using s2 c1 by simp
  show ?thesis
    using h d1 d2 demo_first_save a [OF m1] a [OF m2] a' [OF m3] b' [OF n12]
    unfolding c1 c2 c496 c12 by simp
qed


section \<open>Properties of the notebook's calls\<close>

lemma api_simps:
  "fst (api e c s) = s\<lparr>trace := trace s @ [c]\<rparr>"
  "snd (api e c s) = (case raises e c of Some x \<Rightarrow> Inl x | None \<Rightarrow> Inr ())"
  by (simp_all add: api_def)

lemma steps_api: "steps e (api e c) s [c]"
proof (cases "raises e c")
  case None
  then show ?thesis
    by (simp add: steps_def api_def)
next
  case (Some x)
  have "trace (fst (api e c s)) = trace s @ take 1 [c]
        \<and> (\<forall>c' \<in> set (butlast (take 1 [c])). raises e c' = None \<or> caught c')"
    by (simp add: api_def)
  with Some show ?thesis
    unfolding steps_def by (intro exI [of _ 1]) (simp add: api_def)
qed

lemma steps_return: "steps e (return v) s []"
  by (simp add: steps_def return_def)

lemma steps_raise: "steps e (raise x) s []"
  by (simp add: steps_def raise_def)

lemma steps_set_service: "steps e (set_service n) s []"
  by (simp add: steps_def set_service_def)

lemma steps_on_account: "steps e (on_account f) s []"
  by (auto simp: steps_def on_account_def split: prod.splits sum.splits)

lemma butlast_take_append_subset:
  "set (butlast (cs @ take k ds)) \<subseteq> set cs \<union> set (butlast (take k ds))"
  by (cases "take k ds = []") (auto simp: butlast_append dest: in_set_butlastD)

lemma steps_bind:
  assumes a: "steps e a s cs"
    and f: "\<And>v s'. a s = (s', Inr v) \<Longrightarrow> steps e (f v) s' ds"
  shows "steps e (bind a f) s (cs @ ds)"
proof (cases "a s")
  case (Pair s' r)
  show ?thesis
  proof (cases r)
    case (Inl x)
    from a Pair Inl obtain k where k: "k \<le> length cs" "trace s' = trace s @ take k cs"
      "\<forall>c \<in> set (butlast (take k cs)). raises e c = None \<or> caught c"
      by (auto simp: steps_def)
    have "bind a f s = (s', Inl x)" using Pair Inl by (simp add: bind_def)
    with k show ?thesis
      unfolding steps_def by (intro exI [of _ k]) simp
  next
    case (Inr v)
    from a Pair Inr have tr: "trace s' = trace s @ cs"
      and q: "\<forall>c \<in> set cs. raises e c = None \<or> caught c"
      by (auto simp: steps_def)
    from f [OF Pair [unfolded Inr]] obtain k where k: "k \<le> length ds"
      "trace (fst (f v s')) = trace s' @ take k ds"
      "\<forall>c \<in> set (butlast (take k ds)). raises e c = None \<or> caught c"
      "case snd (f v s') of
         Inr w \<Rightarrow> k = length ds \<and> (\<forall>c \<in> set ds. raises e c = None \<or> caught c)
       | Inl x \<Rightarrow> True"
      by (auto simp: steps_def)
    have b: "bind a f s = f v s'" using Pair Inr by (simp add: bind_def)
    have "\<forall>c \<in> set (butlast (cs @ take k ds)). raises e c = None \<or> caught c"
      using q k(3) butlast_take_append_subset [of cs k ds] by blast
    moreover have "trace (fst (f v s')) = trace s @ take (length cs + k) (cs @ ds)"
      using tr k(2) by simp
    moreover have "case snd (f v s') of
         Inr w \<Rightarrow> length cs + k = length (cs @ ds)
                  \<and> (\<forall>c \<in> set (cs @ ds). raises e c = None \<or> caught c)
       | Inl x \<Rightarrow> True"
      using k(4) q by (auto split: sum.splits)
    ultimately show ?thesis
      unfolding steps_def b using k(1)
      by (intro exI [of _ "length cs + k"]) simp
  qed
qed

lemma steps_straight: "steps e (straight e cs) s cs"
proof (induction cs arbitrary: s)
  case Nil
  show ?case by (simp add: steps_return)
next
  case (Cons c cs)
  have "steps e (bind (api e c) (\<lambda>_. straight e cs)) s ([c] @ cs)"
    by (rule steps_bind [OF steps_api Cons])
  then show ?case by simp
qed

lemma account_api [simp]: "account (fst (api e c s)) = account s"
  by (simp add: api_def)

lemma account_straight [simp]: "account (fst (straight e cs s)) = account s"
  by (induction cs arbitrary: s) (auto simp: return_def bind_def api_def split: option.splits)


lemma steps_cong: "a s = b s \<Longrightarrow> steps e a s cs = steps e b s cs"
  by (simp add: steps_def)

lemma api_Inr_account: "api e c s = (s', Inr v) \<Longrightarrow> account s' = account s"
  by (auto simp: api_def split: option.splits)

lemma find_eq:
  "d \<in> set xs \<Longrightarrow> find (\<lambda>x. x = d) xs = Some d"
  by (induction xs) auto

lemma find_database_link:
  "d \<in> set xs \<Longrightarrow> find (\<lambda>x. ''dbs/'' @ x = ''dbs/'' @ d) xs = Some d"
  by (simp add: find_eq)

lemma find_database_self:
  "d \<in> set xs \<Longrightarrow> find (\<lambda>x. ''dbs/'' @ x @ ''/'' = ''dbs/'' @ d @ ''/'') xs = Some d"
  by (simp add: find_eq)

lemma steps_create_database:
  "steps e (create_database e) s
     ([Find_database]
      @ (if find_database (account s) DOCUMENTDB_DATABASE then [Read_database]
         else [CreateDatabase]))"
  unfolding create_database_def
proof (rule steps_bind [OF steps_api])
  fix v s'
  assume "api e Find_database s = (s', Inr v)"
  then have acc: "account s' = account s" by (rule api_Inr_account)
  show "steps e
          (\<lambda>s. if find_database (account s) DOCUMENTDB_DATABASE = False
                then bind (api e CreateDatabase) (\<lambda>_.
                       on_account (\<lambda>c. cosmos_CreateDatabase c
                                          (PDict [(''id'', PStr DOCUMENTDB_DATABASE)]))) s
                else bind (api e Read_database) (\<lambda>_.
                       on_account (\<lambda>c. (c, read_database c DOCUMENTDB_DATABASE))) s)
          s'
          (if find_database (account s) DOCUMENTDB_DATABASE then [Read_database]
           else [CreateDatabase])"
  proof (cases "find_database (account s) DOCUMENTDB_DATABASE")
    case True
    have "steps e (bind (api e Read_database) (\<lambda>_.
                     on_account (\<lambda>c. (c, read_database c DOCUMENTDB_DATABASE)))) s'
            ([Read_database] @ [])"
      by (rule steps_bind [OF steps_api steps_on_account])
    with True acc show ?thesis by (simp add: steps_def)
  next
    case False
    have "steps e (bind (api e CreateDatabase) (\<lambda>_.
                     on_account (\<lambda>c. cosmos_CreateDatabase c
                                        (PDict [(''id'', PStr DOCUMENTDB_DATABASE)])))) s'
            ([CreateDatabase] @ [])"
      by (rule steps_bind [OF steps_api steps_on_account])
    with False acc show ?thesis by (simp add: steps_def)
  qed
qed

lemma create_database_reads:
  assumes "find_database (account s) DOCUMENTDB_DATABASE"
  shows "account (fst (create_database e s)) = account s"
  using assms
  by (auto simp: create_database_def bind_def api_def on_account_def split: option.splits)

lemma create_database_colls:
  "colls (account (fst (create_database e s))) = colls (account s)"
  by (auto simp: create_database_def bind_def api_def on_account_def cosmos_CreateDatabase_def
      split: option.splits sum.splits pyval.splits)

lemma create_database_result:
  assumes "create_database e s = (s', Inr db)"
  shows "find_database (account s') DOCUMENTDB_DATABASE
       \<and> db = database_resource DOCUMENTDB_DATABASE"
proof (cases "find_database (account s) DOCUMENTDB_DATABASE")
  case True
  then have "DOCUMENTDB_DATABASE \<in> set (dbs (account s))" by (simp add: find_database_def)
  from find_database_link [OF this] True assms show ?thesis
    by (auto simp: create_database_def bind_def api_def on_account_def read_database_def
        cosmos_ReadDatabase_def find_database_def split: option.splits)
next
  case False
  with assms show ?thesis
    by (auto simp: create_database_def bind_def api_def on_account_def cosmos_CreateDatabase_def
        getitem_key_def find_database_def split: option.splits if_splits)
qed

lemma steps_create_collection:
  "steps e (create_collection e db) s
     ([Find_collection]
      @ (if find_collection (account s) DOCUMENTDB_DATABASE DOCUMENTDB_COLLECTION
         then [Read_collection] else [CreateCollection]))"
  unfolding create_collection_def
proof (rule steps_bind [OF steps_api])
  fix v s'
  assume "api e Find_collection s = (s', Inr v)"
  then have acc: "account s' = account s" by (rule api_Inr_account)
  let ?create = "\<lambda>self. bind (api e CreateCollection) (\<lambda>_.
                   on_account (\<lambda>c. cosmos_CreateCollection c (py_str self)
                                      collection_definition collection_options))"
  let ?read = "bind (api e Read_collection) (\<lambda>_.
              on_account (\<lambda>c. (c, read_collection c DOCUMENTDB_DATABASE DOCUMENTDB_COLLECTION)))"
  show "steps e
          (\<lambda>s. if find_collection (account s) DOCUMENTDB_DATABASE DOCUMENTDB_COLLECTION = False
                then (case getitem_key db ''_self'' of
                        Inl x \<Rightarrow> raise x s
                      | Inr self \<Rightarrow> ?create self s)
                else ?read s)
          s'
          (if find_collection (account s) DOCUMENTDB_DATABASE DOCUMENTDB_COLLECTION
           then [Read_collection] else [CreateCollection])"
  proof (cases "find_collection (account s) DOCUMENTDB_DATABASE DOCUMENTDB_COLLECTION")
    case True
    have "steps e ?read s' ([Read_collection] @ [])"
      by (rule steps_bind [OF steps_api steps_on_account])
    with True acc show ?thesis by (simp add: steps_def)
  next
    case False
    show ?thesis
    proof (cases "getitem_key db ''_self''")
      case (Inl x)
      with False acc show ?thesis by (simp add: steps_def raise_def)
    next
      case (Inr self)
      have "steps e (?create self) s' ([CreateCollection] @ [])"
        by (rule steps_bind [OF steps_api steps_on_account])
      with False acc Inr show ?thesis by (simp add: steps_def)
    qed
  qed
qed

lemma create_collection_reads:
  assumes "find_collection (account s) DOCUMENTDB_DATABASE DOCUMENTDB_COLLECTION"
  shows "account (fst (create_collection e db s)) = account s"
  using assms
  by (auto simp: create_collection_def bind_def api_def on_account_def split: option.splits)

lemma create_collection_result:
  assumes "create_collection e (database_resource DOCUMENTDB_DATABASE) s = (s', Inr r)"
    and "find_database (account s) DOCUMENTDB_DATABASE"
  shows "find_collection (account s') DOCUMENTDB_DATABASE DOCUMENTDB_COLLECTION
       \<and> find_database (account s') DOCUMENTDB_DATABASE"
proof (cases "find_collection (account s) DOCUMENTDB_DATABASE DOCUMENTDB_COLLECTION")
  case True
  from create_collection_reads [OF True, of e "database_resource DOCUMENTDB_DATABASE"] assms True
  show ?thesis by simp
next
  case False
  have self: "getitem_key (database_resource DOCUMENTDB_DATABASE) ''_self''
      = Inr (PStr (''dbs/'' @ DOCUMENTDB_DATABASE @ ''/''))"
    by (simp add: database_resource_def getitem_key_def)
  have id: "getitem_key collection_definition ''id'' = Inr (PStr DOCUMENTDB_COLLECTION)"
    by (simp add: collection_definition_def getitem_key_def)
  from assms(2) have "DOCUMENTDB_DATABASE \<in> set (dbs (account s))"
    by (simp add: find_database_def)
  from find_database_self [OF this] False assms show ?thesis
    by (auto simp: create_collection_def bind_def api_def on_account_def self id py_str_def
        cosmos_CreateCollection_def find_collection_def find_database_def has_collection_def
        split: option.splits if_splits)
qed


lemma steps_prepend:
  assumes q: "\<forall>c \<in> set cs. raises e c = None \<or> caught c"
    and tr: "trace s1 = trace s @ cs"
    and h: "steps e h s1 ds"
    and eq: "a s = h s1"
  shows "steps e a s (cs @ ds)"
proof -
  from h obtain k where k: "k \<le> length ds"
    "trace (fst (h s1)) = trace s1 @ take k ds"
    "\<forall>c \<in> set (butlast (take k ds)). raises e c = None \<or> caught c"
    "case snd (h s1) of
       Inr w \<Rightarrow> k = length ds \<and> (\<forall>c \<in> set ds. raises e c = None \<or> caught c)
     | Inl x \<Rightarrow> True"
    by (auto simp: steps_def)
  have "\<forall>c \<in> set (butlast (cs @ take k ds)). raises e c = None \<or> caught c"
    using q k(3) butlast_take_append_subset [of cs k ds] by blast
  moreover have "trace (fst (h s1)) = trace s @ take (length cs + k) (cs @ ds)"
    using tr k(2) by simp
  moreover have "case snd (h s1) of
       Inr w \<Rightarrow> length cs + k = length (cs @ ds)
                \<and> (\<forall>c \<in> set (cs @ ds). raises e c = None \<or> caught c)
     | Inl x \<Rightarrow> True"
    using k(4) q by (auto split: sum.splits)
  ultimately show ?thesis
    unfolding steps_def eq using k(1)
    by (intro exI [of _ "length cs + k"]) simp
qed

lemma steps_handler:
  "steps e (bind (api e Webservice_list) (\<lambda>_.
              case existing_services e of
                [] \<Rightarrow> raise (Exn ''IndexError'' ''list index out of range'')
              | name # _ \<Rightarrow> set_service name)) s ([Webservice_list] @ [])"
proof (rule steps_bind [OF steps_api])
  fix v s'
  show "steps e (case existing_services e of
                   [] \<Rightarrow> raise (Exn ''IndexError'' ''list index out of range'')
                 | name # _ \<Rightarrow> set_service name) s' []"
    by (cases "existing_services e") (simp_all add: steps_raise steps_set_service)
qed

lemma steps_try_deploy:
  "steps e
     (try_except
        (bind (api e Deploy_from_image) (\<lambda>_.
         bind (set_service (data @ ''-'' @ algo)) (\<lambda>_.
         api e Wait_for_deployment)))
        (\<lambda>x. bind (api e Webservice_list) (\<lambda>_.
               case existing_services e of
                 [] \<Rightarrow> raise (Exn ''IndexError'' ''list index out of range'')
               | name # _ \<Rightarrow> set_service name)))
     s
     ([Deploy_from_image]
      @ (case deploy_path_of e of
           Deployed \<Rightarrow> [Wait_for_deployment]
         | Deploy_failed \<Rightarrow> [Webservice_list]
         | Wait_failed \<Rightarrow> [Wait_for_deployment, Webservice_list]))"
  (is "steps e (try_except ?body ?handler) s _")
proof (cases "raises e Deploy_from_image")
  case (Some x)
  let ?s1 = "s\<lparr>trace := trace s @ [Deploy_from_image]\<rparr>"
  have p: "deploy_path_of e = Deploy_failed" using Some by (simp add: deploy_path_of_def)
  have eq: "try_except ?body ?handler s = ?handler x ?s1"
    using Some by (simp add: try_except_def bind_def api_def)
  have "steps e (try_except ?body ?handler) s ([Deploy_from_image] @ ([Webservice_list] @ []))"
  proof (rule steps_prepend [where ?s1.0 = ?s1 and h = "?handler x"])
    show "\<forall>c \<in> set [Deploy_from_image]. raises e c = None \<or> caught c"
      by (simp add: caught_def)
    show "trace ?s1 = trace s @ [Deploy_from_image]" by simp
    show "steps e (?handler x) ?s1 ([Webservice_list] @ [])" by (rule steps_handler)
    show "try_except ?body ?handler s = ?handler x ?s1" by (rule eq)
  qed
  then show ?thesis by (simp add: p)
next
  case None
  let ?s1 = "s\<lparr>trace := trace s @ [Deploy_from_image]\<rparr>"
  let ?s2 = "?s1\<lparr>aks_service := Some (data @ ''-'' @ algo),
                   trace := trace ?s1 @ [Wait_for_deployment]\<rparr>"
  show ?thesis
  proof (cases "raises e Wait_for_deployment")
    case (Some x)
    have p: "deploy_path_of e = Wait_failed" using None Some by (simp add: deploy_path_of_def)
    have eq: "try_except ?body ?handler s = ?handler x ?s2"
      using None Some by (simp add: try_except_def bind_def api_def set_service_def)
    have "steps e (try_except ?body ?handler) s
            ([Deploy_from_image, Wait_for_deployment] @ ([Webservice_list] @ []))"
    proof (rule steps_prepend [where ?s1.0 = ?s2 and h = "?handler x"])
      show "\<forall>c \<in> set [Deploy_from_image, Wait_for_deployment]. raises e c = None \<or> caught c"
        by (simp add: caught_def)
      show "trace ?s2 = trace s @ [Deploy_from_image, Wait_for_deployment]" by simp
      show "steps e (?handler x) ?s2 ([Webservice_list] @ [])" by (rule steps_handler)
      show "try_except ?body ?handler s = ?handler x ?s2" by (rule eq)
    qed
    then show ?thesis by (simp add: p)
  next
    case W: None
    have p: "deploy_path_of e = Deployed" using None W by (simp add: deploy_path_of_def)
    have eq: "try_except ?body ?handler s = (?s2, Inr ())"
      using None W by (simp add: try_except_def bind_def api_def set_service_def)
    show ?thesis
      unfolding steps_def eq p
      by (intro exI [of _ 2]) (simp add: caught_def)
  qed
qed

lemma steps_deploy:
  "steps e (deploy e) s
     ([Deploy_configuration]
      @ ([Deploy_from_image]
         @ (case deploy_path_of e of
              Deployed \<Rightarrow> [Wait_for_deployment]
            | Deploy_failed \<Rightarrow> [Webservice_list]
            | Wait_failed \<Rightarrow> [Wait_for_deployment, Webservice_list])))"
  unfolding deploy_def by (rule steps_bind [OF steps_api steps_try_deploy])

lemma steps_create_cosmosdb:
  "steps e (create_cosmosdb e) s
     ([Get_client_from_cli_profile, Create_or_update, Poller_result, List_keys,
       DocumentClient_new]
      @ (([Find_database]
          @ (if find_database (account s) DOCUMENTDB_DATABASE then [Read_database]
             else [CreateDatabase]))
         @ (([Find_collection]
             @ (if find_collection (account s) DOCUMENTDB_DATABASE DOCUMENTDB_COLLECTION
                then [Read_collection] else [CreateCollection]))
            @ [])))"
  unfolding create_cosmosdb_def
proof (rule steps_bind)
  show "steps e (create_account e) s
          [Get_client_from_cli_profile, Create_or_update, Poller_result, List_keys,
           DocumentClient_new]"
    unfolding create_account_def by (rule steps_straight)
next
  fix v s1
  assume "create_account e s = (s1, Inr v)"
  then have "s1 = fst (create_account e s)" by simp
  then have a1: "account s1 = account s" by (simp only: create_account_def account_straight)
  show "steps e (bind (create_database e) (\<lambda>db.
                 bind (create_collection e db) (\<lambda>collection. return ()))) s1
          (([Find_database]
            @ (if find_database (account s) DOCUMENTDB_DATABASE then [Read_database]
               else [CreateDatabase]))
           @ (([Find_collection]
               @ (if find_collection (account s) DOCUMENTDB_DATABASE DOCUMENTDB_COLLECTION
                  then [Read_collection] else [CreateCollection]))
              @ []))"
  proof (rule steps_bind)
    show "steps e (create_database e) s1
            ([Find_database]
             @ (if find_database (account s) DOCUMENTDB_DATABASE then [Read_database]
                else [CreateDatabase]))"
      using steps_create_database [of e s1] by (simp add: a1)
  next
    fix db s2
    assume "create_database e s1 = (s2, Inr db)"
    then have "s2 = fst (create_database e s1)" by simp
    then have "colls (account s2) = colls (account s)"
      by (simp add: create_database_colls a1)
    then have f: "find_collection (account s2) DOCUMENTDB_DATABASE DOCUMENTDB_COLLECTION
        = find_collection (account s) DOCUMENTDB_DATABASE DOCUMENTDB_COLLECTION"
      by (simp add: find_collection_def has_collection_def)
    show "steps e (bind (create_collection e db) (\<lambda>collection. return ())) s2
            (([Find_collection]
              @ (if find_collection (account s) DOCUMENTDB_DATABASE DOCUMENTDB_COLLECTION
                 then [Read_collection] else [CreateCollection]))
             @ [])"
    proof (rule steps_bind)
      show "steps e (create_collection e db) s2
              ([Find_collection]
               @ (if find_collection (account s) DOCUMENTDB_DATABASE DOCUMENTDB_COLLECTION
                  then [Read_collection] else [CreateCollection]))"
        using steps_create_collection [of e db s2] by (simp add: f)
    next
      fix c s3
      show "steps e (return ()) s3 []" by (rule steps_return)
    qed
  qed
qed

lemma create_cosmosdb_result:
  assumes "snd (create_cosmosdb e s) = Inr ()"
  shows "find_database (account (fst (create_cosmosdb e s))) DOCUMENTDB_DATABASE
       \<and> find_collection (account (fst (create_cosmosdb e s))) DOCUMENTDB_DATABASE
           DOCUMENTDB_COLLECTION"
proof -
  obtain s1 r1 where 1: "create_account e s = (s1, r1)" by (cases "create_account e s")
  with assms obtain v where r1: "r1 = Inr v"
    by (cases r1) (simp_all add: create_cosmosdb_def bind_def)
  obtain s2 r2 where 2: "create_database e s1 = (s2, r2)" by (cases "create_database e s1")
  with assms 1 r1 obtain db where r2: "r2 = Inr db"
    by (cases r2) (simp_all add: create_cosmosdb_def bind_def)
  obtain s3 r3 where 3: "create_collection e db s2 = (s3, r3)"
    by (cases "create_collection e db s2")
  with assms 1 r1 2 r2 obtain c where r3: "r3 = Inr c"
    by (cases r3) (simp_all add: create_cosmosdb_def bind_def)
  have fin: "fst (create_cosmosdb e s) = s3"
    using 1 r1 2 r2 3 r3 by (simp add: create_cosmosdb_def bind_def return_def)
  from create_database_result [OF 2 [unfolded r2]]
  have d: "find_database (account s2) DOCUMENTDB_DATABASE"
    and db: "db = database_resource DOCUMENTDB_DATABASE" by simp_all
  from create_collection_result [OF 3 [unfolded r3 db] d] show ?thesis
    unfolding fin by simp
qed

lemma create_cosmosdb_reads:
  assumes "find_database (account s) DOCUMENTDB_DATABASE"
    and "find_collection (account s) DOCUMENTDB_DATABASE DOCUMENTDB_COLLECTION"
  shows "account (fst (create_cosmosdb e s)) = account s"
proof -
  obtain s1 r1 where 1: "create_account e s = (s1, r1)" by (cases "create_account e s")
  then have "s1 = fst (create_account e s)" by simp
  then have a1: "account s1 = account s" by (simp only: create_account_def account_straight)
  show ?thesis
  proof (cases r1)
    case (Inl x)
    with 1 a1 show ?thesis by (simp add: create_cosmosdb_def bind_def)
  next
    case (Inr v)
    obtain s2 r2 where 2: "create_database e s1 = (s2, r2)" by (cases "create_database e s1")
    then have "s2 = fst (create_database e s1)" by simp
    then have a2: "account s2 = account s"
      using create_database_reads [of s1 e] assms(1) a1 by simp
    show ?thesis
    proof (cases r2)
      case (Inl x)
      with 1 Inr 2 a2 show ?thesis by (simp add: create_cosmosdb_def bind_def)
    next
      case db: (Inr db)
      obtain s3 r3 where 3: "create_collection e db s2 = (s3, r3)"
        by (cases "create_collection e db s2")
      then have "s3 = fst (create_collection e db s2)" by simp
      then have a3: "account s3 = account s"
        using create_collection_reads [of s2 e db] assms(2) a2 by simp
      from 1 Inr 2 db 3 a3 show ?thesis
        by (cases r3) (simp_all add: create_cosmosdb_def bind_def return_def)
    qed
  qed
qed


lemma steps_after_store:
  "steps e
     (bind (api e Write_secrets) (\<lambda>_.
      bind (training e) (\<lambda>_.
      bind (configure e) (\<lambda>_.
      bind (create_image e) (\<lambda>_.
      bind (create_cluster e) (\<lambda>_.
      bind (deploy e) (\<lambda>_.
      call_service e)))))))
     s
     ([Write_secrets]
      @ ([Load_spark_df, Data_show, Spark_random_split, Train_count, Test_count, ALS_fit,
          Transform_user_item, Dfs_pred_show, Top_all_show, Test_show,
          Ranking_evaluation, Transform_test, Rating_evaluation, Model_save, Dbutils_fs_cp]
      @ ([RecommendForAllUsers, Cosmosdb_save, Write_score_script, Write_conda_file,
          Model_register]
      @ ([Image_configuration, ContainerImage_create, Wait_for_creation]
      @ ([Provisioning_configuration, ComputeTarget_create, Wait_for_completion]
      @ (([Deploy_configuration]
          @ ([Deploy_from_image]
             @ (case deploy_path_of e of
                  Deployed \<Rightarrow> [Wait_for_deployment]
                | Deploy_failed \<Rightarrow> [Webservice_list]
                | Wait_failed \<Rightarrow> [Wait_for_deployment, Webservice_list])))
      @ [Get_keys, Urlopen]))))))"
  unfolding training_def configure_def create_image_def create_cluster_def call_service_def
  by (intro steps_bind steps_api steps_straight steps_deploy)

lemma steps_notebook:
  "steps e (notebook e) s
     (calls_of (find_database (account s) DOCUMENTDB_DATABASE)
        (find_collection (account s) DOCUMENTDB_DATABASE DOCUMENTDB_COLLECTION)
        (deploy_path_of e))"
proof -
  let ?store = "[Get_client_from_cli_profile, Create_or_update, Poller_result, List_keys,
       DocumentClient_new]
      @ (([Find_database]
          @ (if find_database (account s) DOCUMENTDB_DATABASE then [Read_database]
             else [CreateDatabase]))
         @ (([Find_collection]
             @ (if find_collection (account s) DOCUMENTDB_DATABASE DOCUMENTDB_COLLECTION
                then [Read_collection] else [CreateCollection]))
            @ []))"
  let ?rest = "[Write_secrets]
      @ ([Load_spark_df, Data_show, Spark_random_split, Train_count, Test_count, ALS_fit,
          Transform_user_item, Dfs_pred_show, Top_all_show, Test_show,
          Ranking_evaluation, Transform_test, Rating_evaluation, Model_save, Dbutils_fs_cp]
      @ ([RecommendForAllUsers, Cosmosdb_save, Write_score_script, Write_conda_file,
          Model_register]
      @ ([Image_configuration, ContainerImage_create, Wait_for_creation]
      @ ([Provisioning_configuration, ComputeTarget_create, Wait_for_completion]
      @ (([Deploy_configuration]
          @ ([Deploy_from_image]
             @ (case deploy_path_of e of
                  Deployed \<Rightarrow> [Wait_for_deployment]
                | Deploy_failed \<Rightarrow> [Webservice_list]
                | Wait_failed \<Rightarrow> [Wait_for_deployment, Webservice_list])))
      @ [Get_keys, Urlopen])))))"
  have "steps e (notebook e) s ([Workspace_create, Write_config] @ (?store @ ?rest))"
    unfolding notebook_def
  proof (rule steps_bind)
    show "steps e (create_workspace e) s [Workspace_create, Write_config]"
      unfolding create_workspace_def by (rule steps_straight)
  next
    fix v s1
    assume "create_workspace e s = (s1, Inr v)"
    then have "s1 = fst (create_workspace e s)" by simp
    then have a1: "account s1 = account s"
      by (simp only: create_workspace_def account_straight)
    show "steps e
            (bind (create_cosmosdb e) (\<lambda>_.
             bind (api e Write_secrets) (\<lambda>_.
             bind (training e) (\<lambda>_.
             bind (configure e) (\<lambda>_.
             bind (create_image e) (\<lambda>_.
             bind (create_cluster e) (\<lambda>_.
             bind (deploy e) (\<lambda>_.
             call_service e))))))))
            s1 (?store @ ?rest)"
    proof (rule steps_bind)
      show "steps e (create_cosmosdb e) s1 ?store"
        using steps_create_cosmosdb [of e s1] by (simp only: a1)
    next
      fix w s2
      show "steps e
              (bind (api e Write_secrets) (\<lambda>_.
               bind (training e) (\<lambda>_.
               bind (configure e) (\<lambda>_.
               bind (create_image e) (\<lambda>_.
               bind (create_cluster e) (\<lambda>_.
               bind (deploy e) (\<lambda>_.
               call_service e)))))))
              s2 ?rest"
        by (rule steps_after_store)
    qed
  qed
  moreover have "[Workspace_create, Write_config] @ (?store @ ?rest)
      = calls_of (find_database (account s) DOCUMENTDB_DATABASE)
          (find_collection (account s) DOCUMENTDB_DATABASE DOCUMENTDB_COLLECTION)
          (deploy_path_of e)"
    by (simp add: calls_of_def)
  ultimately show ?thesis by simp
qed

lemma distinct_calls_of: "distinct (calls_of a b p)"
  by (cases p; cases a; cases b) (simp_all add: calls_of_def)

lemma precedes_take: "precedes x y cs \<Longrightarrow> precedes x y (take k cs)"
proof (induction cs arbitrary: k)
  case Nil
  then show ?case by simp
next
  case (Cons c cs)
  then show ?case by (cases k) (auto split: if_splits)
qed

lemma precedes_calls_of:
  "precedes Create_or_update Poller_result (calls_of a b p)"
  "precedes Poller_result List_keys (calls_of a b p)"
  "precedes ContainerImage_create Wait_for_creation (calls_of a b p)"
  "precedes Wait_for_creation ComputeTarget_create (calls_of a b p)"
  "precedes ComputeTarget_create Wait_for_completion (calls_of a b p)"
  "precedes Wait_for_completion Deploy_from_image (calls_of a b p)"
  "precedes Deploy_from_image Urlopen (calls_of a b p)"
  by (cases p; cases a; cases b; simp add: calls_of_def)+

lemma precedes_deployed:
  "precedes Wait_for_deployment Urlopen (calls_of a b Deployed)"
  "precedes Wait_for_deployment Urlopen (calls_of a b Wait_failed)"
  "precedes Webservice_list Urlopen (calls_of a b Wait_failed)"
  "precedes Webservice_list Urlopen (calls_of a b Deploy_failed)"
  by (cases a; cases b; simp add: calls_of_def)+

lemma calls_made_prefix:
  assumes "trace s = []"
  shows "\<exists>k. calls_made e s =
            take k (calls_of (find_database (account s) DOCUMENTDB_DATABASE)
                      (find_collection (account s) DOCUMENTDB_DATABASE DOCUMENTDB_COLLECTION)
                      (deploy_path_of e))"
  using steps_notebook [of e s] assms by (auto simp: steps_def calls_made_def)

lemma calls_made_complete:
  assumes "trace s = []" and "snd (notebook e s) = Inr ()"
  shows "calls_made e s =
           calls_of (find_database (account s) DOCUMENTDB_DATABASE)
             (find_collection (account s) DOCUMENTDB_DATABASE DOCUMENTDB_COLLECTION)
             (deploy_path_of e)"
  using steps_notebook [of e s] assms by (auto simp: steps_def calls_made_def)

lemma calls_made_returned:
  assumes "trace s = []"
  shows "\<forall>c \<in> set (butlast (calls_made e s)). raises e c = None \<or> caught c"
  using steps_notebook [of e s] assms by (auto simp: steps_def calls_made_def)


lemma notebook_fresh:
  "calls_made all_succeed fresh = calls_of False False Deployed"
  "snd (notebook all_succeed fresh) = Inr ()"
  by code_simp+

lemma notebook_rerun:
  "calls_made all_succeed rerun = calls_of True True Deployed"
  "snd (notebook all_succeed rerun) = Inr ()"
  by code_simp+

lemma notebook_deployment_fails:
  "calls_made deployment_fails rerun = calls_of True True Deploy_failed"
  "snd (notebook deployment_fails rerun) = Inr ()"
  "aks_service (fst (notebook deployment_fails rerun)) = Some ''earlier-service''"
  by code_simp+

text \<open>
  C8. When the database and the collection exist, the service-creation cell reads them
  and creates nothing: it leaves the account as it is, and the calls it makes are among
  the account calls, the two \<open>find\<close> and the two \<open>read\<close>. A run of the cell that
  completes leaves both in existence, so a second run changes nothing.
\<close>

theorem create_cosmosdb_idempotent:
  "(find_database (account s) DOCUMENTDB_DATABASE
      \<and> find_collection (account s) DOCUMENTDB_DATABASE DOCUMENTDB_COLLECTION
    \<longrightarrow> account (fst (create_cosmosdb e s)) = account s
        \<and> (\<exists>k. trace (fst (create_cosmosdb e s)) =
                  trace s @ take k [Get_client_from_cli_profile, Create_or_update, Poller_result,
                                    List_keys, DocumentClient_new, Find_database, Read_database,
                                    Find_collection, Read_collection]))
   \<and> (snd (create_cosmosdb e s) = Inr ()
    \<longrightarrow> find_database (account (fst (create_cosmosdb e s))) DOCUMENTDB_DATABASE
        \<and> find_collection (account (fst (create_cosmosdb e s))) DOCUMENTDB_DATABASE
            DOCUMENTDB_COLLECTION
        \<and> account (fst (create_cosmosdb e' (fst (create_cosmosdb e s))))
            = account (fst (create_cosmosdb e s)))"
proof -
  have reads: "account (fst (create_cosmosdb e s)) = account s
        \<and> (\<exists>k. trace (fst (create_cosmosdb e s)) =
                  trace s @ take k [Get_client_from_cli_profile, Create_or_update, Poller_result,
                                    List_keys, DocumentClient_new, Find_database, Read_database,
                                    Find_collection, Read_collection])"
    if ex: "find_database (account s) DOCUMENTDB_DATABASE"
      "find_collection (account s) DOCUMENTDB_DATABASE DOCUMENTDB_COLLECTION"
  proof -
    from steps_create_cosmosdb [of e s] ex
    have "steps e (create_cosmosdb e) s
            [Get_client_from_cli_profile, Create_or_update, Poller_result,
             List_keys, DocumentClient_new, Find_database, Read_database,
             Find_collection, Read_collection]"
      by simp
    then have "\<exists>k. trace (fst (create_cosmosdb e s)) =
                  trace s @ take k [Get_client_from_cli_profile, Create_or_update, Poller_result,
                                    List_keys, DocumentClient_new, Find_database, Read_database,
                                    Find_collection, Read_collection]"
      unfolding steps_def by blast
    with create_cosmosdb_reads [OF ex] show ?thesis by simp
  qed
  have again: "find_database (account (fst (create_cosmosdb e s))) DOCUMENTDB_DATABASE
        \<and> find_collection (account (fst (create_cosmosdb e s))) DOCUMENTDB_DATABASE
            DOCUMENTDB_COLLECTION
        \<and> account (fst (create_cosmosdb e' (fst (create_cosmosdb e s))))
            = account (fst (create_cosmosdb e s))"
    if ok: "snd (create_cosmosdb e s) = Inr ()"
  proof -
    from create_cosmosdb_result [OF ok]
    have ex: "find_database (account (fst (create_cosmosdb e s))) DOCUMENTDB_DATABASE"
      "find_collection (account (fst (create_cosmosdb e s))) DOCUMENTDB_DATABASE
         DOCUMENTDB_COLLECTION"
      by simp_all
    from create_cosmosdb_reads [OF ex] ex show ?thesis by simp
  qed
  from reads again show ?thesis by blast
qed

lemma create_cosmosdb_fresh:
  "snd (create_cosmosdb all_succeed fresh) = Inr ()"
  "dbs (account (fst (create_cosmosdb all_succeed fresh))) = dbs provisioned_account"
  "colls (account (fst (create_cosmosdb all_succeed fresh))) = colls provisioned_account"
  "trace (fst (create_cosmosdb all_succeed fresh)) =
     [Get_client_from_cli_profile, Create_or_update, Poller_result, List_keys,
      DocumentClient_new, Find_database, CreateDatabase, Find_collection, CreateCollection]"
  "trace (fst (create_cosmosdb all_succeed (fst (create_cosmosdb all_succeed fresh)))) =
     trace (fst (create_cosmosdb all_succeed fresh)) @
     [Get_client_from_cli_profile, Create_or_update, Poller_result, List_keys,
      DocumentClient_new, Find_database, Read_database, Find_collection, Read_collection]"
  by code_simp+

lemma create_cosmosdb_rerun:
  "find_database (account rerun) DOCUMENTDB_DATABASE"
  "find_collection (account rerun) DOCUMENTDB_DATABASE DOCUMENTDB_COLLECTION"
  "snd (create_cosmosdb all_succeed rerun) = Inr ()"
  "trace (fst (create_cosmosdb all_succeed rerun)) =
     [Get_client_from_cli_profile, Create_or_update, Poller_result, List_keys,
      DocumentClient_new, Find_database, Read_database, Find_collection, Read_collection]"
  by code_simp+

theorem create_cosmosdb_idempotent_witness:
  "find_database (account rerun) DOCUMENTDB_DATABASE
   \<and> find_collection (account rerun) DOCUMENTDB_DATABASE DOCUMENTDB_COLLECTION
   \<and> account (fst (create_cosmosdb all_succeed rerun)) = account rerun
   \<and> trace (fst (create_cosmosdb all_succeed rerun)) =
       [Get_client_from_cli_profile, Create_or_update, Poller_result, List_keys,
        DocumentClient_new, Find_database, Read_database, Find_collection, Read_collection]
   \<and> snd (create_cosmosdb all_succeed fresh) = Inr ()
   \<and> find_database (account (fst (create_cosmosdb all_succeed fresh))) DOCUMENTDB_DATABASE
   \<and> find_collection (account (fst (create_cosmosdb all_succeed fresh))) DOCUMENTDB_DATABASE
       DOCUMENTDB_COLLECTION
   \<and> account (fst (create_cosmosdb all_succeed (fst (create_cosmosdb all_succeed fresh))))
       = account (fst (create_cosmosdb all_succeed fresh))
   \<and> dbs (account (fst (create_cosmosdb all_succeed fresh))) = [''recommendations'']
   \<and> map fst (colls (account (fst (create_cosmosdb all_succeed fresh))))
       = [(''recommendations'', ''user_recommendations_als'')]
   \<and> trace (fst (create_cosmosdb all_succeed (fst (create_cosmosdb all_succeed fresh)))) =
       trace (fst (create_cosmosdb all_succeed fresh)) @
       [Get_client_from_cli_profile, Create_or_update, Poller_result, List_keys,
        DocumentClient_new, Find_database, Read_database, Find_collection, Read_collection]"
proof -
  have p: "dbs provisioned_account = [''recommendations'']"
    "map fst (colls provisioned_account) = [(''recommendations'', ''user_recommendations_als'')]"
    by (simp_all add: provisioned_account_def DOCUMENTDB_DATABASE_def DOCUMENTDB_COLLECTION_def
        algo_def)
  from create_cosmosdb_idempotent [of rerun all_succeed all_succeed] create_cosmosdb_rerun(1,2)
  have "account (fst (create_cosmosdb all_succeed rerun)) = account rerun" by blast
  then show ?thesis
    using create_cosmosdb_idempotent [of fresh all_succeed all_succeed]
      create_cosmosdb_fresh create_cosmosdb_rerun p
    by simp
qed

text \<open>
  C5 (as amended). No call is made twice. The calls of a run are an initial part of one
  list, fixed by whether the database exists, whether the collection exists and how the
  deployment goes: the notebook branches on the two existence tests and nowhere else. A
  call that raises ends the run, unless it is one of the two calls in the \<^verbatim>\<open>try\<close> of
  the deployment cell, whose exception is caught and followed by \<^verbatim>\<open>Webservice.list\<close>.
\<close>

theorem notebook_straight_line:
  assumes "trace s = []"
  shows "distinct (calls_made e s)
   \<and> (\<exists>k. calls_made e s =
            take k (calls_of (find_database (account s) DOCUMENTDB_DATABASE)
                      (find_collection (account s) DOCUMENTDB_DATABASE DOCUMENTDB_COLLECTION)
                      (deploy_path_of e)))
   \<and> (snd (notebook e s) = Inr () \<longrightarrow>
        calls_made e s =
          calls_of (find_database (account s) DOCUMENTDB_DATABASE)
            (find_collection (account s) DOCUMENTDB_DATABASE DOCUMENTDB_COLLECTION)
            (deploy_path_of e))
   \<and> (\<forall>c \<in> set (butlast (calls_made e s)). raises e c = None \<or> caught c)
   \<and> (deploy_path_of e \<noteq> Deployed \<longrightarrow> precedes Webservice_list Get_keys (calls_made e s))"
proof -
  from calls_made_prefix [OF assms, of e] obtain k where
    k: "calls_made e s =
          take k (calls_of (find_database (account s) DOCUMENTDB_DATABASE)
                    (find_collection (account s) DOCUMENTDB_DATABASE DOCUMENTDB_COLLECTION)
                    (deploy_path_of e))"
    by blast
  have "distinct (calls_made e s)"
    unfolding k by (rule distinct_take [OF distinct_calls_of])
  moreover have "deploy_path_of e \<noteq> Deployed \<longrightarrow> precedes Webservice_list Get_keys (calls_made e s)"
  proof
    assume "deploy_path_of e \<noteq> Deployed"
    then have "precedes Webservice_list Get_keys
        (calls_of (find_database (account s) DOCUMENTDB_DATABASE)
           (find_collection (account s) DOCUMENTDB_DATABASE DOCUMENTDB_COLLECTION)
           (deploy_path_of e))"
      by (cases "deploy_path_of e";
          cases "find_database (account s) DOCUMENTDB_DATABASE";
          cases "find_collection (account s) DOCUMENTDB_DATABASE DOCUMENTDB_COLLECTION")
         (simp_all add: calls_of_def)
    then show "precedes Webservice_list Get_keys (calls_made e s)"
      unfolding k by (rule precedes_take)
  qed
  ultimately show ?thesis
    using k calls_made_complete [OF assms, of e] calls_made_returned [OF assms, of e]
    by blast
qed

theorem notebook_straight_line_witness:
  "trace fresh = []
   \<and> distinct (calls_made all_succeed fresh)
   \<and> snd (notebook all_succeed fresh) = Inr ()
   \<and> calls_made all_succeed fresh = calls_of False False Deployed
   \<and> trace rerun = []
   \<and> deploy_path_of deployment_fails = Deploy_failed
   \<and> precedes Webservice_list Get_keys (calls_made deployment_fails rerun)"
proof -
  have t: "trace fresh = []" "trace rerun = []" by (simp_all add: fresh_def rerun_def)
  have p: "deploy_path_of deployment_fails = Deploy_failed"
    by (simp add: deploy_path_of_def deployment_fails_def)
  from notebook_straight_line [OF t(1), of all_succeed]
  have "distinct (calls_made all_succeed fresh)" by blast
  moreover from notebook_straight_line [OF t(2), of deployment_fails] p
  have "precedes Webservice_list Get_keys (calls_made deployment_fails rerun)" by simp
  ultimately show ?thesis
    using t p notebook_fresh by (simp only: simp_thms)
qed

theorem notebook_straight_line_counterexample:
  "trace fresh = [] \<and> trace rerun = []
   \<and> calls_made all_succeed fresh \<noteq> calls_made all_succeed rerun
   \<and> CreateDatabase \<in> set (calls_made all_succeed fresh)
   \<and> Read_database \<in> set (calls_made all_succeed rerun)
   \<and> raises deployment_fails Deploy_from_image \<noteq> None
   \<and> Deploy_from_image \<in> set (butlast (calls_made deployment_fails rerun))
   \<and> snd (notebook deployment_fails rerun) = Inr ()
   \<and> aks_service (fst (notebook deployment_fails rerun)) = Some ''earlier-service''"
  unfolding notebook_fresh notebook_rerun notebook_deployment_fails
  by (simp add: fresh_def rerun_def calls_of_def deployment_fails_def)

text \<open>
  C6 (as amended). The calls of a run are made one after the other, in the order of one
  list. The result of the account creation is awaited before the keys are listed, the
  image creation is awaited before the cluster is created, the cluster is awaited before
  the deployment starts. When \<^verbatim>\<open>deploy_from_image\<close> and \<^verbatim>\<open>wait_for_deployment\<close> return,
  the deployment is awaited before the service is called; when one of them raises, the
  service that is called is the first existing one, no deployment of which is awaited.
\<close>

theorem notebook_awaits:
  assumes "trace s = []"
  shows "(\<exists>k. calls_made e s =
            take k (calls_of (find_database (account s) DOCUMENTDB_DATABASE)
                      (find_collection (account s) DOCUMENTDB_DATABASE DOCUMENTDB_COLLECTION)
                      (deploy_path_of e)))
   \<and> precedes Create_or_update Poller_result (calls_made e s)
   \<and> precedes Poller_result List_keys (calls_made e s)
   \<and> precedes ContainerImage_create Wait_for_creation (calls_made e s)
   \<and> precedes Wait_for_creation ComputeTarget_create (calls_made e s)
   \<and> precedes ComputeTarget_create Wait_for_completion (calls_made e s)
   \<and> precedes Wait_for_completion Deploy_from_image (calls_made e s)
   \<and> precedes Deploy_from_image Urlopen (calls_made e s)
   \<and> (raises e Deploy_from_image = None \<and> raises e Wait_for_deployment = None \<longrightarrow>
        precedes Wait_for_deployment Urlopen (calls_made e s))
   \<and> (raises e Deploy_from_image \<noteq> None \<or> raises e Wait_for_deployment \<noteq> None \<longrightarrow>
        precedes Webservice_list Urlopen (calls_made e s))
   \<and> (raises e Deploy_from_image \<noteq> None \<longrightarrow> Wait_for_deployment \<notin> set (calls_made e s))"
proof -
  let ?cs = "calls_of (find_database (account s) DOCUMENTDB_DATABASE)
               (find_collection (account s) DOCUMENTDB_DATABASE DOCUMENTDB_COLLECTION)
               (deploy_path_of e)"
  from calls_made_prefix [OF assms, of e] obtain k where k: "calls_made e s = take k ?cs"
    by blast
  have ordered: "precedes Create_or_update Poller_result (calls_made e s)
   \<and> precedes Poller_result List_keys (calls_made e s)
   \<and> precedes ContainerImage_create Wait_for_creation (calls_made e s)
   \<and> precedes Wait_for_creation ComputeTarget_create (calls_made e s)
   \<and> precedes ComputeTarget_create Wait_for_completion (calls_made e s)
   \<and> precedes Wait_for_completion Deploy_from_image (calls_made e s)
   \<and> precedes Deploy_from_image Urlopen (calls_made e s)"
    unfolding k by (intro conjI precedes_take precedes_calls_of)
  have awaited: "precedes Wait_for_deployment Urlopen (calls_made e s)"
    if "raises e Deploy_from_image = None \<and> raises e Wait_for_deployment = None"
  proof -
    from that have "deploy_path_of e = Deployed" by (simp add: deploy_path_of_def)
    then show ?thesis unfolding k by (simp add: precedes_take precedes_deployed)
  qed
  have fallback: "precedes Webservice_list Urlopen (calls_made e s)"
    if "raises e Deploy_from_image \<noteq> None \<or> raises e Wait_for_deployment \<noteq> None"
  proof -
    from that have "deploy_path_of e = Deploy_failed \<or> deploy_path_of e = Wait_failed"
      by (auto simp: deploy_path_of_def)
    then show ?thesis unfolding k by (auto simp: precedes_take precedes_deployed)
  qed
  have unawaited: "Wait_for_deployment \<notin> set (calls_made e s)"
    if "raises e Deploy_from_image \<noteq> None"
  proof -
    from that have p: "deploy_path_of e = Deploy_failed" by (simp add: deploy_path_of_def)
    have "Wait_for_deployment \<notin> set ?cs"
      unfolding p
      by (cases "find_database (account s) DOCUMENTDB_DATABASE";
          cases "find_collection (account s) DOCUMENTDB_DATABASE DOCUMENTDB_COLLECTION")
         (simp_all add: calls_of_def)
    then show ?thesis unfolding k by (auto dest: in_set_takeD)
  qed
  from k ordered awaited fallback unawaited show ?thesis by blast
qed

theorem notebook_awaits_witness:
  "trace fresh = []
   \<and> raises all_succeed Deploy_from_image = None \<and> raises all_succeed Wait_for_deployment = None
   \<and> calls_made all_succeed fresh = calls_of False False Deployed
   \<and> precedes Poller_result List_keys (calls_made all_succeed fresh)
   \<and> precedes Wait_for_deployment Urlopen (calls_made all_succeed fresh)
   \<and> Urlopen \<in> set (calls_made all_succeed fresh)
   \<and> raises deployment_fails Deploy_from_image \<noteq> None
   \<and> precedes Webservice_list Urlopen (calls_made deployment_fails rerun)
   \<and> Wait_for_deployment \<notin> set (calls_made deployment_fails rerun)"
proof -
  have t: "trace fresh = []" "trace rerun = []" by (simp_all add: fresh_def rerun_def)
  have r: "raises all_succeed Deploy_from_image = None"
    "raises all_succeed Wait_for_deployment = None"
    "raises deployment_fails Deploy_from_image \<noteq> None"
    by (simp_all add: all_succeed_def deployment_fails_def)
  have u: "Urlopen \<in> set (calls_of False False Deployed)" by (simp add: calls_of_def)
  show ?thesis
    using notebook_awaits [OF t(1), of all_succeed] notebook_awaits [OF t(2), of deployment_fails]
      t r u notebook_fresh(1)
    by simp
qed

theorem notebook_awaits_counterexample:
  "trace rerun = []
   \<and> snd (notebook deployment_fails rerun) = Inr ()
   \<and> Urlopen \<in> set (calls_made deployment_fails rerun)
   \<and> Wait_for_deployment \<notin> set (calls_made deployment_fails rerun)
   \<and> \<not> precedes Wait_for_deployment Urlopen (calls_made deployment_fails rerun)"
  unfolding notebook_deployment_fails
  by (simp add: rerun_def calls_of_def)


section \<open>Properties of the training data\<close>

lemma split_filter_mset:
  "mset (map snd (filter P xs)) + mset (map snd (filter (\<lambda>x. \<not> P x) xs)) = mset (map snd xs)"
  by (induction xs) auto

lemma map_snd_zip_upt: "map snd (zip [0..<length xs] xs) = xs"
  by (simp add: map_snd_zip)

lemma spark_random_split_mset:
  assumes "\<forall>i < length rows. 0 \<le> draw seed i \<and> draw seed i < 1"
  shows "mset (fst (spark_random_split draw rows ratio seed))
       + mset (snd (spark_random_split draw rows ratio seed)) = mset rows"
proof -
  let ?numbered = "zip [0..<length rows] rows"
  let ?P = "\<lambda>ir. 0 \<le> draw seed (fst ir) \<and> draw seed (fst ir) < ratio"
  let ?Q = "\<lambda>ir. ratio \<le> draw seed (fst ir) \<and> draw seed (fst ir) < 1"
  have "\<And>ir. ir \<in> set ?numbered \<Longrightarrow> ?Q ir = (\<not> ?P ir)"
  proof -
    fix ir assume "ir \<in> set ?numbered"
    moreover obtain a b where ab: "ir = (a, b)" by (cases ir)
    ultimately have "a \<in> set [0..<length rows]" by (auto dest: set_zip_leftD)
    with ab have "fst ir < length rows" by simp
    with assms have "0 \<le> draw seed (fst ir) \<and> draw seed (fst ir) < 1" by blast
    then show "?Q ir = (\<not> ?P ir)" by auto
  qed
  then have q: "filter ?Q ?numbered = filter (\<lambda>x. \<not> ?P x) ?numbered"
    by (intro filter_cong) auto
  have "fst (spark_random_split draw rows ratio seed) = map snd (filter ?P ?numbered)"
    and "snd (spark_random_split draw rows ratio seed) = map snd (filter ?Q ?numbered)"
    by (simp_all add: spark_random_split_def Let_def)
  then have "mset (fst (spark_random_split draw rows ratio seed))
       + mset (snd (spark_random_split draw rows ratio seed))
       = mset (map snd (filter ?P ?numbered)) + mset (map snd (filter (\<lambda>x. \<not> ?P x) ?numbered))"
    by (simp only: q)
  also have "\<dots> = mset (map snd ?numbered)"
    by (rule split_filter_mset)
  finally have "mset (fst (spark_random_split draw rows ratio seed))
       + mset (snd (spark_random_split draw rows ratio seed))
       = mset (map snd ?numbered)" .
  then show ?thesis by (simp only: map_snd_zip_upt)
qed


text \<open>
  C7. The split with ratio 0.75 and seed 42 partitions the rating records: every record
  of the input lands in exactly one of the two parts (as multisets the parts add up to the
  input), and when no record occurs twice the parts are disjoint and their union is the
  input.
\<close>

theorem train_test_partition:
  assumes "\<forall>i < length rows. 0 \<le> draw 42 i \<and> draw 42 i < 1"
  shows "mset (fst (train_test draw rows)) + mset (snd (train_test draw rows)) = mset rows
       \<and> (distinct rows \<longrightarrow>
            set (fst (train_test draw rows)) \<inter> set (snd (train_test draw rows)) = {}
            \<and> set (fst (train_test draw rows)) \<union> set (snd (train_test draw rows)) = set rows)"
proof -
  let ?train = "fst (train_test draw rows)" and ?test = "snd (train_test draw rows)"
  have m: "mset ?train + mset ?test = mset rows"
    unfolding train_test_def using assms by (rule spark_random_split_mset [of rows draw 42])
  then have app: "mset (?train @ ?test) = mset rows" by simp
  have "set ?train \<inter> set ?test = {} \<and> set ?train \<union> set ?test = set rows" if "distinct rows"
  proof -
    from app that have "distinct (?train @ ?test)" by (metis mset_eq_imp_distinct_iff)
    then have "set ?train \<inter> set ?test = {}" by simp
    moreover from app have "set (?train @ ?test) = set rows" by (rule mset_eq_setD)
    ultimately show ?thesis by simp
  qed
  with m show ?thesis by blast
qed

theorem train_test_partition_witness:
  "map (demo_draw 42) [0, 1, 2, 3] = [0.25, 0.875, 0.25, 0.875]
   \<and> length demo_ratings = 4
   \<and> distinct demo_ratings
   \<and> fst (train_test demo_draw demo_ratings) = [demo_ratings ! 0, demo_ratings ! 2]
   \<and> snd (train_test demo_draw demo_ratings) = [demo_ratings ! 1, demo_ratings ! 3]
   \<and> fst (train_test demo_draw demo_ratings) = demo_train
   \<and> mset (fst (train_test demo_draw demo_ratings)) + mset (snd (train_test demo_draw demo_ratings))
       = mset demo_ratings
   \<and> set (fst (train_test demo_draw demo_ratings)) \<inter> set (snd (train_test demo_draw demo_ratings)) = {}
   \<and> set (fst (train_test demo_draw demo_ratings)) \<union> set (snd (train_test demo_draw demo_ratings))
       = set demo_ratings"
proof -
  have h: "\<forall>i < length demo_ratings. 0 \<le> demo_draw 42 i \<and> demo_draw 42 i < 1"
    by (simp add: demo_draw_def)
  have d: "distinct demo_ratings" by (simp add: demo_ratings_def)
  have n: "length demo_ratings = 4" by (simp add: demo_ratings_def)
  have v: "map (demo_draw 42) [0, 1, 2, 3] = [0.25, 0.875, 0.25, 0.875]"
    by (simp add: demo_draw_def)
  have u: "[0..<length demo_ratings] = [0, 1, 2, 3]"
    by (simp add: demo_ratings_def upt_rec)
  have f: "fst (train_test demo_draw demo_ratings) = [demo_ratings ! 0, demo_ratings ! 2]"
    and s: "snd (train_test demo_draw demo_ratings) = [demo_ratings ! 1, demo_ratings ! 3]"
    unfolding train_test_def spark_random_split_def Let_def u
    by (simp_all add: demo_ratings_def demo_draw_def)
  have t: "[demo_ratings ! 0, demo_ratings ! 2] = demo_train"
    by (simp add: demo_ratings_def demo_train_def)
  from train_test_partition [of demo_ratings demo_draw, OF h] d
  have "mset (fst (train_test demo_draw demo_ratings)) + mset (snd (train_test demo_draw demo_ratings))
       = mset demo_ratings
   \<and> set (fst (train_test demo_draw demo_ratings)) \<inter> set (snd (train_test demo_draw demo_ratings)) = {}
   \<and> set (fst (train_test demo_draw demo_ratings)) \<union> set (snd (train_test demo_draw demo_ratings))
       = set demo_ratings"
    by blast
  with v n d f s t show ?thesis by (simp only: simp_thms)
qed

lemma join_outer_cases:
  assumes "jr \<in> set (join_outer on ls rs)"
  shows "(\<exists>l. jr = (Some l, None) \<and> l \<in> set ls \<and> (\<forall>r \<in> set rs. \<not> on l r))
       \<or> (\<exists>l r. jr = (Some l, Some r) \<and> l \<in> set ls \<and> r \<in> set rs \<and> on l r)
       \<or> (\<exists>r. jr = (None, Some r) \<and> r \<in> set rs \<and> (\<forall>l \<in> set ls. \<not> on l r))"
proof -
  from assms consider
    (left) l where "l \<in> set ls"
      "jr \<in> set (case filter (on l) rs of
                   [] \<Rightarrow> [(Some l, None)]
                 | m # ms \<Rightarrow> map (\<lambda>r. (Some l, Some r)) (m # ms))"
    | (right) r where "r \<in> set rs" "\<not> list_ex (\<lambda>l. on l r) ls" "jr = (None, Some r)"
    by (auto simp: join_outer_def)
  then show ?thesis
  proof cases
    case left
    show ?thesis
    proof (cases "filter (on l) rs")
      case Nil
      then have "\<forall>r \<in> set rs. \<not> on l r" by (simp add: filter_empty_conv)
      with left Nil show ?thesis by auto
    next
      case (Cons m ms)
      with left obtain r where "r \<in> set (filter (on l) rs)" "jr = (Some l, Some r)"
        by auto
      with left show ?thesis by auto
    qed
  next
    case right
    then show ?thesis by (auto simp: list_ex_iff)
  qed
qed

lemma dfs_pred_rows:
  assumes "l \<in> set (dfs_pred predict train)"
  shows "pred_UserId l \<in> UserId ` set train \<and> pred_MovieId l \<in> MovieId ` set train
       \<and> predict (pred_UserId l) (pred_MovieId l) = Some (prediction l)"
  using assms
  by (auto simp: dfs_pred_def transform_def crossJoin_def users_def items_def
      map_filter_def split: option.splits)

text \<open>
  C10. When every training record has a rating, every row of \<open>top_all\<close> is a scored pair
  of a user and an item of the training set that the training set does not hold: the rows
  of the outer join that pass the filter are the scored pairs without a partner.
\<close>

theorem top_all_excludes_train:
  assumes "\<forall>t \<in> set train. Rating t \<noteq> None"
  shows "\<forall>row \<in> set (top_all predict train).
           \<exists>u i p. row = (Some u, Some i, Some p)
                  \<and> (u, i) \<notin> (\<lambda>t. (UserId t, MovieId t)) ` set train
                  \<and> u \<in> UserId ` set train \<and> i \<in> MovieId ` set train
                  \<and> predict u i = Some p"
proof
  fix row assume "row \<in> set (top_all predict train)"
  then obtain jr where jr: "jr \<in> set (dfs_pred_exclude_train predict train)"
    and null: "train_Rating jr = None"
    and row: "row = (map_option pred_UserId (fst jr), map_option pred_MovieId (fst jr),
                     map_option prediction (fst jr))"
    by (auto simp: top_all_def)
  let ?on = "\<lambda>p t. pred_UserId p = UserId t \<and> pred_MovieId p = MovieId t"
  from jr have "jr \<in> set (join_outer ?on (dfs_pred predict train) train)"
    by (simp add: dfs_pred_exclude_train_def)
  from join_outer_cases [OF this] null assms
  obtain l where l: "jr = (Some l, None)" "l \<in> set (dfs_pred predict train)"
    "\<forall>t \<in> set train. \<not> ?on l t"
    by (auto simp: train_Rating_def)
  from l(3) have "(pred_UserId l, pred_MovieId l) \<notin> (\<lambda>t. (UserId t, MovieId t)) ` set train"
    by auto
  with dfs_pred_rows [OF l(2)] row l(1)
  show "\<exists>u i p. row = (Some u, Some i, Some p)
                  \<and> (u, i) \<notin> (\<lambda>t. (UserId t, MovieId t)) ` set train
                  \<and> u \<in> UserId ` set train \<and> i \<in> MovieId ` set train
                  \<and> predict u i = Some p"
    by simp
qed

lemma top_all_demo:
  "top_all demo_predict demo_train = [(Some 1, Some 20, Some 21), (Some 2, Some 10, Some 12)]"
  by code_simp

theorem top_all_excludes_train_witness:
  "map Rating demo_train = [Some 5, Some 1]
   \<and> map (\<lambda>t. (UserId t, MovieId t)) demo_train = [(1, 10), (2, 20)]
   \<and> top_all demo_predict demo_train = [(Some 1, Some 20, Some 21), (Some 2, Some 10, Some 12)]
   \<and> (1, 20) \<notin> (\<lambda>t. (UserId t, MovieId t)) ` set demo_train
   \<and> (2, 10) \<notin> (\<lambda>t. (UserId t, MovieId t)) ` set demo_train"
proof -
  have h: "\<forall>t \<in> set demo_train. Rating t \<noteq> None" by (simp add: demo_train_def)
  have r: "map Rating demo_train = [Some 5, Some 1]" by (simp add: demo_train_def)
  have p: "map (\<lambda>t. (UserId t, MovieId t)) demo_train = [(1, 10), (2, 20)]"
    by (simp add: demo_train_def)
  from top_all_excludes_train [OF h, of demo_predict]
  have "(1, 20) \<notin> (\<lambda>t. (UserId t, MovieId t)) ` set demo_train
      \<and> (2, 10) \<notin> (\<lambda>t. (UserId t, MovieId t)) ` set demo_train"
    unfolding top_all_demo by simp
  with r p top_all_demo show ?thesis by (simp only: simp_thms)
qed


end
